theory Spec2Isabelle
  imports Main
begin

section \<open>The EFS volume driver of docker-volume-netshare\<close>

text \<open>
  The development embeds \<^verbatim>\<open>netshare/drivers/efs.go\<close>: the constructor
  \<^verbatim>\<open>NewEFSDriver\<close>, the methods \<^verbatim>\<open>Mount\<close> and \<^verbatim>\<open>Unmount\<close>, and the
  source resolver \<^verbatim>\<open>fixSource\<close> with \<^verbatim>\<open>mountSuffix\<close>. Go strings are byte
  sequences, as \<open>string\<close> is here. Mutation of the driver's maps is explicit state
  passing; a run-time panic is the left injection of a sum.
\<close>

subsection \<open>Library functions of Go used by the driver\<close>

text \<open>
  \<^verbatim>\<open>strings.Split(s, sep)\<close> for a separator of one byte (the driver only splits at
  \<^verbatim>\<open>"/"\<close>): the pieces between the separators, in order; the empty string splits
  into one empty piece.
\<close>

fun Split :: "string \<Rightarrow> char \<Rightarrow> string list" where
  "Split [] sep = [[]]"
| "Split (c # cs) sep =
     (if c = sep then [] # Split cs sep
      else (case Split cs sep of [] \<Rightarrow> [[c]] | w # ws \<Rightarrow> (c # w) # ws))"

text \<open>\<^verbatim>\<open>strings.Join(elems, sep)\<close>.\<close>

fun Join :: "string list \<Rightarrow> string \<Rightarrow> string" where
  "Join [] sep = []"
| "Join [x] sep = x"
| "Join (x # y # ys) sep = x @ sep @ Join (y # ys) sep"

text \<open>
  \<^verbatim>\<open>fmt.Sprintf(EfsTemplateURI, a, b, c)\<close> with the constant
  \<^verbatim>\<open>EfsTemplateURI = "%s.%s.efs.%s.amazonaws.com"\<close>.
\<close>

definition EfsTemplateURI :: "string \<Rightarrow> string \<Rightarrow> string \<Rightarrow> string" where
  "EfsTemplateURI a b c = a @ ''.'' @ b @ ''.efs.'' @ c @ ''.amazonaws.com''"

subsection \<open>The mount registry\<close>

text \<open>
  Modelled from the spec: the type \<^verbatim>\<open>mountManager\<close> and its methods
  \<^verbatim>\<open>HasMount\<close>, \<^verbatim>\<open>Count\<close>, \<^verbatim>\<open>Add\<close>, \<^verbatim>\<open>Increment\<close>, \<^verbatim>\<open>Decrement\<close> and
  \<^verbatim>\<open>Remove\<close> are declared in a file of the package that is not among the sources.
  The registry is a table from a mountpoint to the volume name bound to it and a
  reference count; the operations follow section 4.1 of the specification.
\<close>

record mount =
  volumeName :: string
  refCount :: int

type_synonym mountManager = "string \<rightharpoonup> mount"

definition NewVolumeManager :: mountManager where
  "NewVolumeManager = Map.empty"

definition HasMount :: "mountManager \<Rightarrow> string \<Rightarrow> bool" where
  "HasMount m mp = (case m mp of None \<Rightarrow> False | Some _ \<Rightarrow> True)"

definition Count :: "mountManager \<Rightarrow> string \<Rightarrow> int" where
  "Count m mp = (case m mp of None \<Rightarrow> 0 | Some c \<Rightarrow> refCount c)"

definition Add :: "mountManager \<Rightarrow> string \<Rightarrow> string \<Rightarrow> mountManager" where
  "Add m mp vn =
     (case m mp of
        None \<Rightarrow> m(mp \<mapsto> \<lparr>volumeName = vn, refCount = 1\<rparr>)
      | Some c \<Rightarrow> m(mp \<mapsto> \<lparr>volumeName = vn, refCount = max 1 (refCount c)\<rparr>))"

definition Increment :: "mountManager \<Rightarrow> string \<Rightarrow> mountManager" where
  "Increment m mp =
     (case m mp of
        None \<Rightarrow> m
      | Some c \<Rightarrow> m(mp \<mapsto> c\<lparr>refCount := refCount c + 1\<rparr>))"

definition Decrement :: "mountManager \<Rightarrow> string \<Rightarrow> mountManager" where
  "Decrement m mp =
     (case m mp of
        None \<Rightarrow> m
      | Some c \<Rightarrow> m(mp \<mapsto> c\<lparr>refCount := max 0 (refCount c - 1)\<rparr>))"

definition Remove :: "mountManager \<Rightarrow> string \<Rightarrow> mountManager" where
  "Remove m mp = m(mp := None)"

subsection \<open>The collaborators of the driver\<close>

text \<open>
  The driver calls functions whose bodies are outside \<^verbatim>\<open>efs.go\<close>:
  \<^verbatim>\<open>mountpoint\<close>, \<^verbatim>\<open>createDest\<close>, \<^verbatim>\<open>mountVolume\<close> and \<^verbatim>\<open>run\<close> of the package,
  \<^verbatim>\<open>os.RemoveAll\<close> and \<^verbatim>\<open>net.LookupHost\<close> of the standard library. They are
  parameters of the model. Each effectful one reads and changes a state of the host,
  of an arbitrary type \<open>'w\<close>, and returns Go's \<^verbatim>\<open>error\<close> as an optional message
  (\<open>None\<close> is \<^verbatim>\<open>nil\<close>); \<^verbatim>\<open>LookupHost\<close> returns the error or the addresses.
\<close>

record 'w sys =
  mountpoint :: "string \<Rightarrow> string \<Rightarrow> string"
  createDest :: "string \<Rightarrow> 'w \<Rightarrow> string option \<times> 'w"
  mountVolume :: "string \<Rightarrow> string \<Rightarrow> int \<Rightarrow> 'w \<Rightarrow> string option \<times> 'w"
  run :: "string \<Rightarrow> 'w \<Rightarrow> string option \<times> 'w"
  RemoveAll :: "string \<Rightarrow> 'w \<Rightarrow> string option \<times> 'w"
  LookupHost :: "string \<Rightarrow> 'w \<Rightarrow> (string + string list) \<times> 'w"

text \<open>Every call of a collaborator is logged, in order, next to the host's state.\<close>

datatype call =
    CallCreateDest string
  | CallMountVolume string string int
  | CallRun string
  | CallRemoveAll string
  | CallLookupHost string

record 'w host =
  world :: 'w
  calls :: "call list"

definition do_createDest :: "'w sys \<Rightarrow> string \<Rightarrow> 'w host \<Rightarrow> string option \<times> 'w host" where
  "do_createDest sys dest h =
     (case createDest sys dest (world h) of
        (err, w) \<Rightarrow> (err, \<lparr>world = w, calls = calls h @ [CallCreateDest dest]\<rparr>))"

definition do_mountVolume ::
  "'w sys \<Rightarrow> string \<Rightarrow> string \<Rightarrow> int \<Rightarrow> 'w host \<Rightarrow> string option \<times> 'w host" where
  "do_mountVolume sys source dest v h =
     (case mountVolume sys source dest v (world h) of
        (err, w) \<Rightarrow> (err, \<lparr>world = w, calls = calls h @ [CallMountVolume source dest v]\<rparr>))"

definition do_run :: "'w sys \<Rightarrow> string \<Rightarrow> 'w host \<Rightarrow> string option \<times> 'w host" where
  "do_run sys cmd h =
     (case run sys cmd (world h) of
        (err, w) \<Rightarrow> (err, \<lparr>world = w, calls = calls h @ [CallRun cmd]\<rparr>))"

definition do_RemoveAll :: "'w sys \<Rightarrow> string \<Rightarrow> 'w host \<Rightarrow> string option \<times> 'w host" where
  "do_RemoveAll sys dest h =
     (case RemoveAll sys dest (world h) of
        (err, w) \<Rightarrow> (err, \<lparr>world = w, calls = calls h @ [CallRemoveAll dest]\<rparr>))"

definition do_LookupHost ::
  "'w sys \<Rightarrow> string \<Rightarrow> 'w host \<Rightarrow> (string + string list) \<times> 'w host" where
  "do_LookupHost sys uri h =
     (case LookupHost sys uri (world h) of
        (res, w) \<Rightarrow> (res, \<lparr>world = w, calls = calls h @ [CallLookupHost uri]\<rparr>))"

subsection \<open>The driver\<close>

text \<open>
  The struct \<^verbatim>\<open>efsDriver\<close>. The fields \<^verbatim>\<open>mountm\<close> (a pointer) and \<^verbatim>\<open>dnscache\<close> (a
  map) are shared by every copy of the struct, so the methods, although they have
  value receivers, change them for the caller: the model returns the driver with
  the two fields updated. The mutex \<^verbatim>\<open>m\<close> is locked for the whole body of
  \<^verbatim>\<open>Mount\<close> and of \<^verbatim>\<open>Unmount\<close>; the model runs one body at a time and has no field
  for it.
\<close>

record efsDriver =
  root :: string
  availzone :: string
  resolve :: bool
  region :: string
  mountm :: mountManager
  dnscache :: "string \<rightharpoonup> string"

text \<open>The fields of the metadata \<^verbatim>\<open>fetchAWSMetaData\<close> returns that the driver reads.\<close>

record AWSMetaData =
  Region :: string
  AvailZone :: string

text \<open>
  \<^verbatim>\<open>ips[0]\<close> on an empty slice panics; \<^verbatim>\<open>log.Fatalf\<close> ends the process.
\<close>

datatype error = IndexOutOfRange | Fatal string

text \<open>
  \<^verbatim>\<open>NewEFSDriver(root, az, resolve)\<close>; the last argument is what
  \<^verbatim>\<open>fetchAWSMetaData()\<close> returned. The composite literal leaves \<^verbatim>\<open>availzone\<close> and
  \<^verbatim>\<open>region\<close> at the zero value, the empty string.
\<close>

definition NewEFSDriver ::
  "string \<Rightarrow> string \<Rightarrow> bool \<Rightarrow> string + AWSMetaData \<Rightarrow> error + efsDriver" where
  "NewEFSDriver rt az rslv fetched =
     (let d = \<lparr>root = rt, availzone = [], resolve = rslv, region = [],
                mountm = NewVolumeManager, dnscache = Map.empty\<rparr>
      in case fetched of
           Inl err \<Rightarrow> Inl (Fatal (''Error resolving AWS metadata: '' @ err @ [CHR 0x0A]))
         | Inr md \<Rightarrow>
             (let d1 = d\<lparr>region := Region md\<rparr>
              in Inr (if az = [] then d1\<lparr>availzone := AvailZone md\<rparr> else d1)))"

text \<open>The requests and responses of the plugin protocol, as far as the driver uses them.\<close>

record Request =
  Name :: string

record Response =
  Mountpoint :: string
  Err :: string

definition mountSuffix :: "string \<Rightarrow> string" where
  "mountSuffix uri = uri @ '':/''"

text \<open>
  \<^verbatim>\<open>fixSource\<close>: the source string, the driver with its DNS cache and the host
  after the call. \<^verbatim>\<open>v[0]\<close> and \<^verbatim>\<open>ips[0]\<close> panic on an empty slice.
\<close>

definition fixSource ::
  "'w sys \<Rightarrow> efsDriver \<Rightarrow> string \<Rightarrow> 'w host \<Rightarrow> error + (string \<times> efsDriver \<times> 'w host)" where
  "fixSource sys e name h =
     (case Split name CHR ''/'' of
        [] \<Rightarrow> Inl IndexOutOfRange
      | v0 # vs \<Rightarrow>
          if resolve e then
            (let uri = EfsTemplateURI (availzone e) v0 (region e)
             in case dnscache e uri of
                  Some i \<Rightarrow> Inr (mountSuffix i, e, h)
                | None \<Rightarrow>
                    (case do_LookupHost sys uri h of
                       (Inr ips, h1) \<Rightarrow>
                         (case ips of
                            [] \<Rightarrow> Inl IndexOutOfRange
                          | ip # _ \<Rightarrow>
                              Inr (mountSuffix ip, e\<lparr>dnscache := (dnscache e)(uri \<mapsto> ip)\<rparr>, h1))
                     | (Inl err, h1) \<Rightarrow> Inr (mountSuffix uri, e, h1)))
          else Inr (Join ((v0 @ '':'') # vs) ''/'', e, h))"

definition ok_response :: "string \<Rightarrow> Response" where
  "ok_response mp = \<lparr>Mountpoint = mp, Err = []\<rparr>"

definition err_response :: "string \<Rightarrow> Response" where
  "err_response msg = \<lparr>Mountpoint = [], Err = msg\<rparr>"

text \<open>
  \<^verbatim>\<open>Mount\<close>, the body between \<^verbatim>\<open>Lock\<close> and \<^verbatim>\<open>Unlock\<close>. \<open>Mount_body\<close> is
  the part after \<^verbatim>\<open>dest\<close> and \<^verbatim>\<open>source\<close> have been computed (from the test of
  the registry to the end); it has no panic of its own.
\<close>

definition Mount_body ::
  "'w sys \<Rightarrow> efsDriver \<Rightarrow> Request \<Rightarrow> string \<Rightarrow> string \<Rightarrow> 'w host \<Rightarrow>
   Response \<times> efsDriver \<times> 'w host" where
  "Mount_body sys e r dest source h =
     (if HasMount (mountm e) dest \<and> Count (mountm e) dest > 0 then
        (ok_response dest, e\<lparr>mountm := Increment (mountm e) dest\<rparr>, h)
      else
        (case do_createDest sys dest h of
           (Some err, h1) \<Rightarrow> (err_response err, e, h1)
         | (None, h1) \<Rightarrow>
             (case do_mountVolume sys source dest 4 h1 of
                (Some err, h2) \<Rightarrow> (err_response err, e, h2)
              | (None, h2) \<Rightarrow>
                  (ok_response dest, e\<lparr>mountm := Add (mountm e) dest (Name r)\<rparr>, h2))))"

definition Mount ::
  "'w sys \<Rightarrow> efsDriver \<Rightarrow> Request \<Rightarrow> 'w host \<Rightarrow> error + (Response \<times> efsDriver \<times> 'w host)" where
  "Mount sys e r h =
     (let dest = mountpoint sys (root e) (Name r)
      in case fixSource sys e (Name r) h of
           Inl p \<Rightarrow> Inl p
         | Inr (source, e1, h1) \<Rightarrow> Inr (Mount_body sys e1 r dest source h1))"

text \<open>
  \<^verbatim>\<open>Unmount\<close>, the body between \<^verbatim>\<open>Lock\<close> and \<^verbatim>\<open>Unlock\<close>. The command run is
  \<^verbatim>\<open>fmt.Sprintf("umount %s", dest)\<close>. \<open>Unmount_physical\<close> is the end of the body,
  from the call of \<^verbatim>\<open>run\<close> on; \<open>Unmount_body\<close> is the body after \<^verbatim>\<open>dest\<close> and
  \<^verbatim>\<open>source\<close> have been computed (\<^verbatim>\<open>source\<close> is only logged).
\<close>

definition umount_cmd :: "string \<Rightarrow> string" where
  "umount_cmd dest = ''umount '' @ dest"

definition Unmount_physical ::
  "'w sys \<Rightarrow> efsDriver \<Rightarrow> string \<Rightarrow> 'w host \<Rightarrow> Response \<times> efsDriver \<times> 'w host" where
  "Unmount_physical sys e dest h =
     (case do_run sys (umount_cmd dest) h of
        (Some err, h1) \<Rightarrow> (err_response err, e, h1)
      | (None, h1) \<Rightarrow>
          (case do_RemoveAll sys dest h1 of
             (Some err, h2) \<Rightarrow> (err_response err, e, h2)
           | (None, h2) \<Rightarrow> (ok_response [], e, h2)))"

definition Unmount_body ::
  "'w sys \<Rightarrow> efsDriver \<Rightarrow> string \<Rightarrow> 'w host \<Rightarrow> Response \<times> efsDriver \<times> 'w host" where
  "Unmount_body sys e dest h =
     (if HasMount (mountm e) dest then
        if Count (mountm e) dest > 1 then
          (ok_response [], e\<lparr>mountm := Decrement (mountm e) dest\<rparr>, h)
        else Unmount_physical sys (e\<lparr>mountm := Decrement (mountm e) dest\<rparr>) dest h
      else Unmount_physical sys e dest h)"

definition Unmount ::
  "'w sys \<Rightarrow> efsDriver \<Rightarrow> Request \<Rightarrow> 'w host \<Rightarrow> error + (Response \<times> efsDriver \<times> 'w host)" where
  "Unmount sys e r h =
     (let dest = mountpoint sys (root e) (Name r)
      in case fixSource sys e (Name r) h of
           Inl p \<Rightarrow> Inl p
         | Inr (source, e1, h1) \<Rightarrow> Inr (Unmount_body sys e1 dest h1))"

subsection \<open>Running the driver\<close>

text \<open>
  Calls made one after the other, each returning before the next is made:
  \<open>serial\<close> runs a list of calls for one request, collects the responses and
  stops at the first panic.
\<close>

datatype op = OpMount | OpUnmount

definition call_op ::
  "'w sys \<Rightarrow> efsDriver \<Rightarrow> Request \<Rightarrow> op \<Rightarrow> 'w host \<Rightarrow>
   error + (Response \<times> efsDriver \<times> 'w host)" where
  "call_op sys e r x h = (case x of OpMount \<Rightarrow> Mount sys e r h | OpUnmount \<Rightarrow> Unmount sys e r h)"

fun serial ::
  "'w sys \<Rightarrow> Request \<Rightarrow> op list \<Rightarrow> efsDriver \<Rightarrow> 'w host \<Rightarrow>
   error + (Response list \<times> efsDriver \<times> 'w host)" where
  "serial sys r [] e h = Inr ([], e, h)"
| "serial sys r (x # xs) e h =
     (case call_op sys e r x h of
        Inl p \<Rightarrow> Inl p
      | Inr (resp, e1, h1) \<Rightarrow>
          (case serial sys r xs e1 h1 of
             Inl p \<Rightarrow> Inl p
           | Inr (resps, e2, h2) \<Rightarrow> Inr (resp # resps, e2, h2)))"

text \<open>
  The physical mounts and unmounts of a mountpoint in a log: the calls of
  \<^verbatim>\<open>mountVolume\<close> with that target, and the runs of its \<^verbatim>\<open>umount\<close> command.
\<close>

fun is_mount_of :: "string \<Rightarrow> call \<Rightarrow> bool" where
  "is_mount_of dest (CallMountVolume source target v) = (target = dest)"
| "is_mount_of dest c = False"

definition physical_mounts :: "string \<Rightarrow> call list \<Rightarrow> nat" where
  "physical_mounts dest cs = length (filter (is_mount_of dest) cs)"

definition physical_unmounts :: "string \<Rightarrow> call list \<Rightarrow> nat" where
  "physical_unmounts dest cs = count_list cs (CallRun (umount_cmd dest))"

text \<open>
  The calls in a log other than those of \<^verbatim>\<open>LookupHost\<close>: directory creations,
  mounts, commands run and directory removals.
\<close>

fun is_lookup :: "call \<Rightarrow> bool" where
  "is_lookup (CallLookupHost uri) = True"
| "is_lookup c = False"

definition physical_calls :: "call list \<Rightarrow> call list" where
  "physical_calls cs = filter (\<lambda>c. \<not> is_lookup c) cs"

subsection \<open>Concurrent calls\<close>

text \<open>
  Every request is served by a goroutine of its own. A goroutine that serves
  \<^verbatim>\<open>Mount\<close> or \<^verbatim>\<open>Unmount\<close> first calls \<^verbatim>\<open>e.m.Lock()\<close>, then runs the body, and
  the deferred \<^verbatim>\<open>e.m.Unlock()\<close> runs when it leaves the body, by \<^verbatim>\<open>return\<close> or by
  a panic. Its program counter says where it stands: before \<^verbatim>\<open>Lock\<close>; in the body
  of \<^verbatim>\<open>Mount\<close>, before \<^verbatim>\<open>dest\<close> and \<^verbatim>\<open>source\<close> are computed, before the test of the
  registry, before \<^verbatim>\<open>createDest\<close>, before \<^verbatim>\<open>mountVolume\<close> and before \<^verbatim>\<open>Add\<close>; in
  the body of \<^verbatim>\<open>Unmount\<close>, before \<^verbatim>\<open>dest\<close> and \<^verbatim>\<open>source\<close> are computed, before the
  test of the registry, before \<^verbatim>\<open>run\<close> and before \<^verbatim>\<open>os.RemoveAll\<close>; leaving the
  body with its result, before \<^verbatim>\<open>Unlock\<close>; and returned. The local variable
  \<^verbatim>\<open>source\<close> of \<^verbatim>\<open>Mount\<close> is kept in the program counter; \<^verbatim>\<open>dest\<close> is computed from
  the root and the name, which do not change.
\<close>

datatype pc =
    Start op
  | MountLocked
  | MountCheck string
  | MountCreate string
  | MountAttach string
  | MountAdd
  | UnmountLocked
  | UnmountCheck
  | UnmountRun
  | UnmountRemove
  | Leaving "error + Response"
  | Returned "error + Response"

text \<open>
  The host a panic of \<^verbatim>\<open>fixSource\<close> leaves: the panic is that of \<^verbatim>\<open>ips[0]\<close>, after
  the call of \<^verbatim>\<open>LookupHost\<close>.
\<close>

definition panic_host :: "'w sys \<Rightarrow> efsDriver \<Rightarrow> string \<Rightarrow> 'w host \<Rightarrow> 'w host" where
  "panic_host sys e name h =
     snd (do_LookupHost sys
            (EfsTemplateURI (availzone e) (hd (Split name CHR ''/'')) (region e)) h)"

text \<open>
  One step of a goroutine inside a body: the statements of \<^verbatim>\<open>Mount\<close> and of
  \<^verbatim>\<open>Unmount\<close> from one program counter to the next, on the driver and the host
  as they are at that moment.
\<close>

fun body :: "'w sys \<Rightarrow> Request \<Rightarrow> pc \<Rightarrow> efsDriver \<Rightarrow> 'w host \<Rightarrow> pc \<times> efsDriver \<times> 'w host" where
  "body sys r MountLocked e h =
     (case fixSource sys e (Name r) h of
        Inl p \<Rightarrow> (Leaving (Inl p), e, panic_host sys e (Name r) h)
      | Inr (source, e1, h1) \<Rightarrow> (MountCheck source, e1, h1))"
| "body sys r (MountCheck source) e h =
     (if HasMount (mountm e) (mountpoint sys (root e) (Name r)) \<and>
         Count (mountm e) (mountpoint sys (root e) (Name r)) > 0
      then (Leaving (Inr (ok_response (mountpoint sys (root e) (Name r)))),
            e\<lparr>mountm := Increment (mountm e) (mountpoint sys (root e) (Name r))\<rparr>, h)
      else (MountCreate source, e, h))"
| "body sys r (MountCreate source) e h =
     (case do_createDest sys (mountpoint sys (root e) (Name r)) h of
        (Some err, h1) \<Rightarrow> (Leaving (Inr (err_response err)), e, h1)
      | (None, h1) \<Rightarrow> (MountAttach source, e, h1))"
| "body sys r (MountAttach source) e h =
     (case do_mountVolume sys source (mountpoint sys (root e) (Name r)) 4 h of
        (Some err, h1) \<Rightarrow> (Leaving (Inr (err_response err)), e, h1)
      | (None, h1) \<Rightarrow> (MountAdd, e, h1))"
| "body sys r MountAdd e h =
     (Leaving (Inr (ok_response (mountpoint sys (root e) (Name r)))),
      e\<lparr>mountm := Add (mountm e) (mountpoint sys (root e) (Name r)) (Name r)\<rparr>, h)"
| "body sys r UnmountLocked e h =
     (case fixSource sys e (Name r) h of
        Inl p \<Rightarrow> (Leaving (Inl p), e, panic_host sys e (Name r) h)
      | Inr (source, e1, h1) \<Rightarrow> (UnmountCheck, e1, h1))"
| "body sys r UnmountCheck e h =
     (if HasMount (mountm e) (mountpoint sys (root e) (Name r)) then
        if Count (mountm e) (mountpoint sys (root e) (Name r)) > 1 then
          (Leaving (Inr (ok_response [])),
           e\<lparr>mountm := Decrement (mountm e) (mountpoint sys (root e) (Name r))\<rparr>, h)
        else
          (UnmountRun, e\<lparr>mountm := Decrement (mountm e) (mountpoint sys (root e) (Name r))\<rparr>, h)
      else (UnmountRun, e, h))"
| "body sys r UnmountRun e h =
     (case do_run sys (umount_cmd (mountpoint sys (root e) (Name r))) h of
        (Some err, h1) \<Rightarrow> (Leaving (Inr (err_response err)), e, h1)
      | (None, h1) \<Rightarrow> (UnmountRemove, e, h1))"
| "body sys r UnmountRemove e h =
     (case do_RemoveAll sys (mountpoint sys (root e) (Name r)) h of
        (Some err, h1) \<Rightarrow> (Leaving (Inr (err_response err)), e, h1)
      | (None, h1) \<Rightarrow> (Leaving (Inr (ok_response [])), e, h1))"
| "body sys r p e h = (p, e, h)"

text \<open>
  The driver in use: the mutex \<^verbatim>\<open>e.m\<close>, locked or not, the goroutines that serve
  requests, the driver's data and the host.
\<close>

record 'w config =
  locked :: bool
  goroutines :: "pc list"
  drv :: efsDriver
  hst :: "'w host"

text \<open>
  One step of goroutine \<open>t\<close>. \<^verbatim>\<open>Lock\<close> takes the mutex when it is unlocked and has
  no step while it is locked: the goroutine waits. \<^verbatim>\<open>Unlock\<close> releases the mutex;
  on an unlocked mutex it is a fatal error of the Go runtime, and there is no
  step. A goroutine that has returned has no step. The result is \<open>None\<close> when
  there is no step.
\<close>

definition step :: "'w sys \<Rightarrow> Request \<Rightarrow> 'w config \<Rightarrow> nat \<Rightarrow> 'w config option" where
  "step sys r c t =
     (if t < length (goroutines c) then
        (case goroutines c ! t of
           Start x \<Rightarrow>
             if locked c then None
             else Some (c\<lparr>locked := True,
                         goroutines := (goroutines c)
                           [t := (case x of OpMount \<Rightarrow> MountLocked | OpUnmount \<Rightarrow> UnmountLocked)]\<rparr>)
         | Leaving res \<Rightarrow>
             if locked c
             then Some (c\<lparr>locked := False, goroutines := (goroutines c)[t := Returned res]\<rparr>)
             else None
         | Returned res \<Rightarrow> None
         | p \<Rightarrow>
             (case body sys r p (drv c) (hst c) of
                (p1, e1, h1) \<Rightarrow>
                  Some (c\<lparr>goroutines := (goroutines c)[t := p1], drv := e1, hst := h1\<rparr>)))
      else None)"

text \<open>
  An interleaving is the list of the goroutines in the order in which they take
  their steps. \<open>run_schedule\<close> follows it; the result is \<open>None\<close> when the list
  names a goroutine at a moment at which it has no step.
\<close>

fun run_schedule :: "'w sys \<Rightarrow> Request \<Rightarrow> nat list \<Rightarrow> 'w config \<Rightarrow> 'w config option" where
  "run_schedule sys r [] c = Some c"
| "run_schedule sys r (t # ts) c =
     (case step sys r c t of None \<Rightarrow> None | Some c1 \<Rightarrow> run_schedule sys r ts c1)"

fun returned :: "pc \<Rightarrow> bool" where
  "returned (Returned res) = True"
| "returned p = False"

definition finished :: "'w config \<Rightarrow> bool" where
  "finished c = list_all returned (goroutines c)"

text \<open>Goroutines for a list of calls, none of which has started.\<close>

definition spawn :: "op list \<Rightarrow> efsDriver \<Rightarrow> 'w host \<Rightarrow> 'w config" where
  "spawn xs e h = \<lparr>locked = False, goroutines = map Start xs, drv = e, hst = h\<rparr>"

text \<open>
  The steps a goroutine has left before it leaves the body, and the result of
  running it alone from a program counter to the end of the body.
\<close>

fun left :: "pc \<Rightarrow> nat" where
  "left MountLocked = 5"
| "left (MountCheck source) = 4"
| "left (MountCreate source) = 3"
| "left (MountAttach source) = 2"
| "left MountAdd = 1"
| "left UnmountLocked = 4"
| "left UnmountCheck = 3"
| "left UnmountRun = 2"
| "left UnmountRemove = 1"
| "left p = 0"

function complete ::
  "'w sys \<Rightarrow> Request \<Rightarrow> pc \<Rightarrow> efsDriver \<Rightarrow> 'w host \<Rightarrow> pc \<times> efsDriver \<times> 'w host" where
  "complete sys r p e h =
     (if 0 < left p
      then (case body sys r p e h of (p1, e1, h1) \<Rightarrow> complete sys r p1 e1 h1)
      else (p, e, h))"
  by pat_completeness auto
termination
  apply (relation "measure (\<lambda>(sys, r, p, e, h). left p)")
   apply simp
  subgoal for sys r p
    by (cases p) (auto split: sum.splits prod.splits option.splits if_splits)
  done

declare complete.simps [simp del]

text \<open>
  A goroutine is outside the bodies when it has not locked the mutex yet or has
  returned. The program counter a goroutine has after \<^verbatim>\<open>Lock\<close>.
\<close>

fun outside :: "pc \<Rightarrow> bool" where
  "outside (Start x) = True"
| "outside (Returned res) = True"
| "outside p = False"

definition first_pc :: "op \<Rightarrow> pc" where
  "first_pc x = (case x of OpMount \<Rightarrow> MountLocked | OpUnmount \<Rightarrow> UnmountLocked)"

text \<open>
  The mutex is unlocked and every goroutine is outside the bodies; the mutex is
  locked, goroutine \<open>t\<close> is inside a body or about to unlock, and every other
  goroutine is outside.
\<close>

definition unheld :: "'w config \<Rightarrow> bool" where
  "unheld c = (\<not> locked c \<and> list_all outside (goroutines c))"

definition held :: "'w config \<Rightarrow> nat \<Rightarrow> bool" where
  "held c t =
     (locked c \<and> t < length (goroutines c) \<and> \<not> outside (goroutines c ! t) \<and>
      list_all outside ((goroutines c)[t := Start OpMount]))"


text \<open>
  A bound on the steps a goroutine still takes: seven for a call that has not
  started (\<^verbatim>\<open>Lock\<close>, at most five steps of the body, \<^verbatim>\<open>Unlock\<close>).
\<close>

fun todo :: "pc \<Rightarrow> nat" where
  "todo (Start x) = 7"
| "todo (Returned res) = 0"
| "todo p = left p + 1"

subsection \<open>Hosts for running the driver on concrete inputs\<close>

text \<open>
  A host without state whose collaborators give the same answer to every call; the
  mountpoint of a volume is the root, a slash and the name.
\<close>

definition fixed_sys ::
  "string option \<Rightarrow> string option \<Rightarrow> string option \<Rightarrow> string option \<Rightarrow>
   string + string list \<Rightarrow> unit sys" where
  "fixed_sys cd mv rn ra lk =
     \<lparr>mountpoint = (\<lambda>rt name. rt @ ''/'' @ name),
      createDest = (\<lambda>dest w. (cd, w)),
      mountVolume = (\<lambda>source dest v w. (mv, w)),
      run = (\<lambda>cmd w. (rn, w)),
      RemoveAll = (\<lambda>dest w. (ra, w)),
      LookupHost = (\<lambda>uri w. (lk, w))\<rparr>"

definition idle :: "unit host" where
  "idle = \<lparr>world = (), calls = []\<rparr>"

text \<open>A driver as the constructor builds it, with the zone and the region given.\<close>

definition driver :: "string \<Rightarrow> string \<Rightarrow> bool \<Rightarrow> string \<Rightarrow> efsDriver" where
  "driver rt az rslv rg =
     \<lparr>root = rt, availzone = az, resolve = rslv, region = rg,
      mountm = NewVolumeManager, dnscache = Map.empty\<rparr>"

section \<open>Properties\<close>

subsection \<open>Splitting and joining\<close>

lemma Split_not_Nil: "Split s sep \<noteq> []"
  by (induction s) (auto split: list.splits)

lemma Split_no_sep: "sep \<notin> set s \<Longrightarrow> Split s sep = [s]"
  by (induction s) auto

lemma Split_first: "sep \<notin> set s \<Longrightarrow> Split (s @ sep # t) sep = s # Split t sep"
  by (induction s) auto

lemma Join_Cons: "ws \<noteq> [] \<Longrightarrow> Join (w # ws) sep = w @ sep @ Join ws sep"
  by (cases ws) auto

text \<open>Joining the pieces of a split string with the separator gives the string back.\<close>

lemma Join_Split: "Join (Split s c) [c] = s"
proof (induction s)
  case Nil
  show ?case by simp
next
  case (Cons a s)
  show ?case
  proof (cases "a = c")
    case True
    with Cons show ?thesis by (simp add: Join_Cons Split_not_Nil)
  next
    case False
    obtain w ws where sp: "Split s c = w # ws"
      using Split_not_Nil [of s c] by (cases "Split s c") auto
    with Cons False show ?thesis by (cases ws) auto
  qed
qed

subsection \<open>Source resolution without name resolution\<close>

text \<open>
  Claim C5. In non-resolving mode the name \<^verbatim>\<open>"server1/export"\<close> gives the source
  \<^verbatim>\<open>"server1:/export"\<close>; in general a name whose first segment is \<open>server\<close> and
  whose rest is \<open>path\<close> gives \<open>server\<close>, then \<^verbatim>\<open>":/"\<close>, then \<open>path\<close>. The
  driver and the host come back as they were: the DNS cache is not touched and no
  collaborator, \<^verbatim>\<open>LookupHost\<close> included, is called.
\<close>

theorem fixSource_non_resolving:
  assumes "\<not> resolve e"
  shows "fixSource sys e ''server1/export'' h = Inr (''server1:/export'', e, h) \<and>
         (CHR ''/'' \<notin> set server \<longrightarrow>
            fixSource sys e (server @ ''/'' @ path) h = Inr (server @ '':/'' @ path, e, h))"
proof -
  have general: "fixSource sys e (sv @ ''/'' @ pt) h = Inr (sv @ '':/'' @ pt, e, h)"
    if "CHR ''/'' \<notin> set sv" for sv pt
    using assms that Join_Split [of pt "CHR ''/''"]
    by (simp add: fixSource_def Split_first Join_Cons Split_not_Nil)
  have "fixSource sys e (''server1'' @ ''/'' @ ''export'') h
          = Inr (''server1'' @ '':/'' @ ''export'', e, h)"
    by (rule general) simp
  then show ?thesis using general [of server path] by simp
qed

theorem fixSource_non_resolving_witness:
  "\<not> resolve (driver ''/var/lib/efs'' [] False []) \<and>
   fixSource (fixed_sys None None None None (Inl ''no such host''))
     (driver ''/var/lib/efs'' [] False []) ''server1/export'' idle
     = Inr (''server1:/export'', driver ''/var/lib/efs'' [] False [], idle) \<and>
   fixSource (fixed_sys None None None None (Inl ''no such host''))
     (driver ''/var/lib/efs'' [] False []) (''fs-0a1b'' @ ''/'' @ ''data/logs'') idle
     = Inr (''fs-0a1b'' @ '':/'' @ ''data/logs'', driver ''/var/lib/efs'' [] False [], idle)"
  using fixSource_non_resolving
    [of "driver ''/var/lib/efs'' [] False []" "fixed_sys None None None None (Inl ''no such host'')"
        idle "''fs-0a1b''" "''data/logs''"]
  by (simp add: driver_def)

text \<open>
  Claim C10. In non-resolving mode a name without \<^verbatim>\<open>"/"\<close> gives the name followed
  by \<^verbatim>\<open>":"\<close> and nothing more.
\<close>

theorem fixSource_bare_name:
  assumes "\<not> resolve e" and "CHR ''/'' \<notin> set name"
  shows "fixSource sys e name h = Inr (name @ '':'', e, h)"
  using assms by (simp add: fixSource_def Split_no_sep)

theorem fixSource_bare_name_witness:
  "\<not> resolve (driver ''/var/lib/efs'' [] False []) \<and> CHR ''/'' \<notin> set ''server1'' \<and>
   fixSource (fixed_sys None None None None (Inl ''no such host''))
     (driver ''/var/lib/efs'' [] False []) ''server1'' idle
     = Inr (''server1:'', driver ''/var/lib/efs'' [] False [], idle)"
  using fixSource_bare_name
    [of "driver ''/var/lib/efs'' [] False []" "''server1''"
        "fixed_sys None None None None (Inl ''no such host'')" idle]
  by (simp add: driver_def)

lemma hd_Split_no_sep: "sep \<notin> set (hd (Split s sep))"
  by (induction s) (auto split: list.splits)

lemma fixSource_frame:
  assumes "fixSource sys e name h = Inr (source, e1, h1)"
  shows "mountm e1 = mountm e" and "root e1 = root e" and "resolve e1 = resolve e"
    and "availzone e1 = availzone e" and "region e1 = region e"
    and "physical_calls (calls h1) = physical_calls (calls h)"
    and "physical_mounts dest (calls h1) = physical_mounts dest (calls h)"
    and "physical_unmounts dest (calls h1) = physical_unmounts dest (calls h)"
  using assms
  by (auto simp: fixSource_def do_LookupHost_def physical_calls_def physical_mounts_def
      physical_unmounts_def Let_def
      split: list.splits if_splits option.splits prod.splits sum.splits)

text \<open>
  In resolving mode the result for a name is the result for its first segment:
  the segments after the first are not used, for any name.
\<close>

lemma fixSource_first_segment:
  assumes "resolve e"
  shows "fixSource sys e name h = fixSource sys e (hd (Split name CHR ''/'')) h"
proof -
  obtain v0 vs where sp: "Split name CHR ''/'' = v0 # vs"
    using Split_not_Nil [of name "CHR ''/''"] by (cases "Split name CHR ''/''") auto
  have "CHR ''/'' \<notin> set v0"
    using hd_Split_no_sep [of "CHR ''/''" name] sp by simp
  then have "Split v0 CHR ''/'' = [v0]"
    by (rule Split_no_sep)
  then show ?thesis
    using assms sp by (simp add: fixSource_def)
qed

lemma fixSource_resolve:
  assumes "resolve e"
    and "uri = EfsTemplateURI (availzone e) (hd (Split name CHR ''/'')) (region e)"
  shows "fixSource sys e name h =
     (case dnscache e uri of
           Some i \<Rightarrow> Inr (i @ '':/'', e, h)
         | None \<Rightarrow>
             (case LookupHost sys uri (world h) of
                (Inl err, w) \<Rightarrow>
                  Inr (uri @ '':/'', e, \<lparr>world = w, calls = calls h @ [CallLookupHost uri]\<rparr>)
              | (Inr [], w) \<Rightarrow> Inl IndexOutOfRange
              | (Inr (ip # ips), w) \<Rightarrow>
                  Inr (ip @ '':/'', e\<lparr>dnscache := (dnscache e)(uri \<mapsto> ip)\<rparr>,
                       \<lparr>world = w, calls = calls h @ [CallLookupHost uri]\<rparr>)))"
proof -
  obtain v0 vs where sp: "Split name CHR ''/'' = v0 # vs"
    using Split_not_Nil [of name "CHR ''/''"] by (cases "Split name CHR ''/''") auto
  show ?thesis
    using assms sp
    by (simp add: fixSource_def mountSuffix_def do_LookupHost_def Let_def
        split: option.splits prod.splits sum.splits list.splits)
qed

lemma fixSource_hit:
  assumes "resolve e" and "uri = EfsTemplateURI (availzone e) (hd (Split name CHR ''/'')) (region e)"
    and "dnscache e uri = Some i"
  shows "fixSource sys e name h = Inr (i @ '':/'', e, h)"
  using assms by (simp add: fixSource_resolve [where uri = uri])

lemma fixSource_miss_ok:
  assumes "resolve e" and "uri = EfsTemplateURI (availzone e) (hd (Split name CHR ''/'')) (region e)"
    and "dnscache e uri = None" and "LookupHost sys uri (world h) = (Inr (ip # ips), w)"
  shows "fixSource sys e name h =
     Inr (ip @ '':/'', e\<lparr>dnscache := (dnscache e)(uri \<mapsto> ip)\<rparr>,
          \<lparr>world = w, calls = calls h @ [CallLookupHost uri]\<rparr>)"
  using assms by (simp add: fixSource_resolve [where uri = uri])

lemma fixSource_miss_fail:
  assumes "resolve e" and "uri = EfsTemplateURI (availzone e) (hd (Split name CHR ''/'')) (region e)"
    and "dnscache e uri = None" and "LookupHost sys uri (world h) = (Inl err, w)"
  shows "fixSource sys e name h =
     Inr (uri @ '':/'', e, \<lparr>world = w, calls = calls h @ [CallLookupHost uri]\<rparr>)"
  using assms by (simp add: fixSource_resolve [where uri = uri])


subsection \<open>Source resolution with name resolution\<close>

text \<open>
  Claim C4. In resolving mode, with zone \<^verbatim>\<open>"az1"\<close> and region \<^verbatim>\<open>"us-east-1"\<close>, the
  host name built for the volume \<^verbatim>\<open>"vol1/sub/path"\<close> is
  \<^verbatim>\<open>"az1.vol1.efs.us-east-1.amazonaws.com"\<close>, as the claim says: it is the name
  \<^verbatim>\<open>LookupHost\<close> is called with and the key of the cache. When the resolution
  yields \<^verbatim>\<open>"10.0.0.5"\<close> the source the code returns is \<^verbatim>\<open>"10.0.0.5:/"\<close>, and not
  \<^verbatim>\<open>"10.0.0.5:/sub/path"\<close> as the claim says: the resolving branch splits the name
  and then leaves out the segments after the first, which the non-resolving branch
  of the same function joins to the source.
\<close>

theorem fixSource_resolving_drops_path:
  "fixSource (fixed_sys None None None None (Inr [''10.0.0.5'']))
     (driver ''/var/lib/efs'' ''az1'' True ''us-east-1'') ''vol1/sub/path'' idle
     = Inr (''10.0.0.5:/'',
            (driver ''/var/lib/efs'' ''az1'' True ''us-east-1'')
              \<lparr>dnscache := [''az1.vol1.efs.us-east-1.amazonaws.com'' \<mapsto> ''10.0.0.5'']\<rparr>,
            \<lparr>world = (), calls = [CallLookupHost ''az1.vol1.efs.us-east-1.amazonaws.com'']\<rparr>) \<and>
   ''10.0.0.5:/'' \<noteq> ''10.0.0.5:/sub/path''"
  by (simp add: fixSource_def driver_def fixed_sys_def idle_def EfsTemplateURI_def
      mountSuffix_def do_LookupHost_def Let_def)

text \<open>
  Claim C6. In resolving mode, for every name, with \<open>uri\<close> the host name built from
  the zone, the first segment of the name and the region: a cached address is the
  host of the source and nothing is looked up; on a miss, when the resolution
  succeeds, its first address is cached and is the host of the source; when the
  resolution fails, the host of the source is \<open>uri\<close> itself, nothing is cached, and
  \<^verbatim>\<open>Mount\<close> and \<^verbatim>\<open>Unmount\<close> go on with the rest of their bodies as after any
  resolution: the error of the resolution is not in their result.
\<close>

theorem fixSource_resolving:
  assumes "resolve e"
    and "uri = EfsTemplateURI (availzone e) (hd (Split name CHR ''/'')) (region e)"
    and "dest = mountpoint sys (root e) name"
    and "h1 = \<lparr>world = w, calls = calls h @ [CallLookupHost uri]\<rparr>"
  shows "(dnscache e uri = Some i \<longrightarrow> fixSource sys e name h = Inr (i @ '':/'', e, h)) \<and>
         (dnscache e uri = None \<and> LookupHost sys uri (world h) = (Inr (ip # ips), w) \<longrightarrow>
            fixSource sys e name h
              = Inr (ip @ '':/'', e\<lparr>dnscache := (dnscache e)(uri \<mapsto> ip)\<rparr>, h1)) \<and>
         (dnscache e uri = None \<and> LookupHost sys uri (world h) = (Inl err, w) \<longrightarrow>
            fixSource sys e name h = Inr (uri @ '':/'', e, h1) \<and>
            Mount sys e \<lparr>Name = name\<rparr> h
              = Inr (Mount_body sys e \<lparr>Name = name\<rparr> dest (uri @ '':/'') h1) \<and>
            Unmount sys e \<lparr>Name = name\<rparr> h = Inr (Unmount_body sys e dest h1))"
proof -
  have hit: "fixSource sys e name h = Inr (i @ '':/'', e, h)" if "dnscache e uri = Some i"
    using fixSource_hit [OF assms(1,2) that] .
  have ok: "fixSource sys e name h
              = Inr (ip @ '':/'', e\<lparr>dnscache := (dnscache e)(uri \<mapsto> ip)\<rparr>, h1)"
    if "dnscache e uri = None" and "LookupHost sys uri (world h) = (Inr (ip # ips), w)"
    using fixSource_miss_ok [OF assms(1,2) that] assms(4) by simp
  have fail: "fixSource sys e name h = Inr (uri @ '':/'', e, h1)"
    if "dnscache e uri = None" and "LookupHost sys uri (world h) = (Inl err, w)"
    using fixSource_miss_fail [OF assms(1,2) that] assms(4) by simp
  have mount: "Mount sys e \<lparr>Name = name\<rparr> h
                 = Inr (Mount_body sys e \<lparr>Name = name\<rparr> dest (uri @ '':/'') h1)"
    if "dnscache e uri = None" and "LookupHost sys uri (world h) = (Inl err, w)"
    using fail [OF that] assms(3) by (simp add: Mount_def)
  have unmount: "Unmount sys e \<lparr>Name = name\<rparr> h = Inr (Unmount_body sys e dest h1)"
    if "dnscache e uri = None" and "LookupHost sys uri (world h) = (Inl err, w)"
    using fail [OF that] assms(3) by (simp add: Unmount_def)
  show ?thesis
    using hit ok fail mount unmount by blast
qed

theorem fixSource_resolving_witness:
  "fixSource (fixed_sys None None None None (Inr [''10.0.0.5'', ''10.0.0.6'']))
     ((driver ''/var/lib/efs'' ''az1'' True ''us-east-1'')
        \<lparr>dnscache := [''az1.vol1.efs.us-east-1.amazonaws.com'' \<mapsto> ''10.0.0.9'']\<rparr>)
     ''vol1/sub/path'' idle
     = Inr (''10.0.0.9:/'',
            (driver ''/var/lib/efs'' ''az1'' True ''us-east-1'')
              \<lparr>dnscache := [''az1.vol1.efs.us-east-1.amazonaws.com'' \<mapsto> ''10.0.0.9'']\<rparr>,
            idle) \<and>
   fixSource (fixed_sys None None None None (Inr [''10.0.0.5'', ''10.0.0.6'']))
     (driver ''/var/lib/efs'' ''az1'' True ''us-east-1'') ''vol1/sub/path'' idle
     = Inr (''10.0.0.5:/'',
            (driver ''/var/lib/efs'' ''az1'' True ''us-east-1'')
              \<lparr>dnscache := [''az1.vol1.efs.us-east-1.amazonaws.com'' \<mapsto> ''10.0.0.5'']\<rparr>,
            \<lparr>world = (), calls = [CallLookupHost ''az1.vol1.efs.us-east-1.amazonaws.com'']\<rparr>) \<and>
   fixSource (fixed_sys None None None None (Inl ''no such host''))
     (driver ''/var/lib/efs'' ''az1'' True ''us-east-1'') ''vol1/sub/path'' idle
     = Inr (''az1.vol1.efs.us-east-1.amazonaws.com:/'',
            driver ''/var/lib/efs'' ''az1'' True ''us-east-1'',
            \<lparr>world = (), calls = [CallLookupHost ''az1.vol1.efs.us-east-1.amazonaws.com'']\<rparr>) \<and>
   Mount (fixed_sys None None None None (Inl ''no such host''))
     (driver ''/var/lib/efs'' ''az1'' True ''us-east-1'') \<lparr>Name = ''vol1/sub/path''\<rparr> idle
     = Inr (\<lparr>Mountpoint = ''/var/lib/efs/vol1/sub/path'', Err = []\<rparr>,
            (driver ''/var/lib/efs'' ''az1'' True ''us-east-1'')
              \<lparr>mountm := [''/var/lib/efs/vol1/sub/path''
                            \<mapsto> \<lparr>volumeName = ''vol1/sub/path'', refCount = 1\<rparr>]\<rparr>,
            \<lparr>world = (),
             calls = [CallLookupHost ''az1.vol1.efs.us-east-1.amazonaws.com'',
                      CallCreateDest ''/var/lib/efs/vol1/sub/path'',
                      CallMountVolume ''az1.vol1.efs.us-east-1.amazonaws.com:/''
                        ''/var/lib/efs/vol1/sub/path'' 4]\<rparr>) \<and>
   Unmount (fixed_sys None None None None (Inl ''no such host''))
     (driver ''/var/lib/efs'' ''az1'' True ''us-east-1'') \<lparr>Name = ''vol1/sub/path''\<rparr> idle
     = Inr (\<lparr>Mountpoint = [], Err = []\<rparr>,
            driver ''/var/lib/efs'' ''az1'' True ''us-east-1'',
            \<lparr>world = (),
             calls = [CallLookupHost ''az1.vol1.efs.us-east-1.amazonaws.com'',
                      CallRun ''umount /var/lib/efs/vol1/sub/path'',
                      CallRemoveAll ''/var/lib/efs/vol1/sub/path'']\<rparr>)"
  using
    fixSource_resolving
      [of "(driver ''/var/lib/efs'' ''az1'' True ''us-east-1'')
             \<lparr>dnscache := [''az1.vol1.efs.us-east-1.amazonaws.com'' \<mapsto> ''10.0.0.9'']\<rparr>"
          "''az1.vol1.efs.us-east-1.amazonaws.com''" "''vol1/sub/path''"
          "''/var/lib/efs/vol1/sub/path''"
          "fixed_sys None None None None (Inr [''10.0.0.5'', ''10.0.0.6''])"
          "\<lparr>world = (), calls = [CallLookupHost ''az1.vol1.efs.us-east-1.amazonaws.com'']\<rparr>"
          "()" idle "''10.0.0.9''"]
    fixSource_resolving
      [of "driver ''/var/lib/efs'' ''az1'' True ''us-east-1''"
          "''az1.vol1.efs.us-east-1.amazonaws.com''" "''vol1/sub/path''"
          "''/var/lib/efs/vol1/sub/path''"
          "fixed_sys None None None None (Inr [''10.0.0.5'', ''10.0.0.6''])"
          "\<lparr>world = (), calls = [CallLookupHost ''az1.vol1.efs.us-east-1.amazonaws.com'']\<rparr>"
          "()" idle _ "''10.0.0.5''" "[''10.0.0.6'']"]
    fixSource_resolving
      [of "driver ''/var/lib/efs'' ''az1'' True ''us-east-1''"
          "''az1.vol1.efs.us-east-1.amazonaws.com''" "''vol1/sub/path''"
          "''/var/lib/efs/vol1/sub/path''"
          "fixed_sys None None None None (Inl ''no such host'')"
          "\<lparr>world = (), calls = [CallLookupHost ''az1.vol1.efs.us-east-1.amazonaws.com'']\<rparr>"
          "()" idle _ _ _ "''no such host''"]
  by (simp add: driver_def fixed_sys_def idle_def EfsTemplateURI_def Mount_body_def
      Unmount_body_def Unmount_physical_def do_createDest_def do_mountVolume_def do_run_def
      do_RemoveAll_def HasMount_def Count_def Add_def NewVolumeManager_def ok_response_def
      err_response_def umount_cmd_def)

subsection \<open>Construction\<close>

lemma NewEFSDriver_availzone:
  assumes "NewEFSDriver rt az rslv (Inr md) = Inr d"
  shows "availzone d = (if az = [] then AvailZone md else [])"
    and "region d = Region md" and "root d = rt" and "resolve d = rslv"
  using assms by (auto simp: NewEFSDriver_def Let_def split: if_splits)

text \<open>
  Claim C7. With the override \<^verbatim>\<open>"us-east-1a"\<close> and metadata whose zone is
  \<^verbatim>\<open>"us-east-1b"\<close>, the constructor returns a driver whose zone is the empty string:
  \<^verbatim>\<open>az\<close> is only compared with \<^verbatim>\<open>""\<close> and never stored. With the empty override
  the zone is that of the metadata.
\<close>

theorem NewEFSDriver_override_dropped:
  "NewEFSDriver ''/var/lib/efs'' ''us-east-1a'' True
     (Inr \<lparr>Region = ''us-east-1'', AvailZone = ''us-east-1b''\<rparr>)
     = Inr \<lparr>root = ''/var/lib/efs'', availzone = [], resolve = True, region = ''us-east-1'',
            mountm = NewVolumeManager, dnscache = Map.empty\<rparr> \<and>
   NewEFSDriver ''/var/lib/efs'' [] True
     (Inr \<lparr>Region = ''us-east-1'', AvailZone = ''us-east-1b''\<rparr>)
     = Inr \<lparr>root = ''/var/lib/efs'', availzone = ''us-east-1b'', resolve = True,
            region = ''us-east-1'', mountm = NewVolumeManager, dnscache = Map.empty\<rparr>"
  by (simp add: NewEFSDriver_def)

subsection \<open>Mount\<close>

lemma Count_pos_HasMount: "0 < Count m mp \<Longrightarrow> HasMount m mp"
  by (simp add: Count_def HasMount_def split: option.splits)

lemma Count_Increment:
  "HasMount m mp \<Longrightarrow> Count (Increment m mp) mp = Count m mp + 1"
  by (simp add: Count_def HasMount_def Increment_def split: option.splits)

lemma Count_Decrement:
  "Count (Decrement m mp) mp = max 0 (Count m mp - 1)"
  by (simp add: Count_def Decrement_def split: option.splits)

lemma HasMount_Decrement: "HasMount (Decrement m mp) mp' = HasMount m mp'"
  by (simp add: HasMount_def Decrement_def split: option.splits)

lemma HasMount_Increment: "HasMount (Increment m mp) mp' = HasMount m mp'"
  by (simp add: HasMount_def Increment_def split: option.splits)

lemma Count_Add: "Count m mp \<le> 0 \<Longrightarrow> Count (Add m mp vn) mp = 1"
  by (simp add: Count_def Add_def split: option.splits)

lemma HasMount_Add: "HasMount (Add m mp vn) mp"
  by (simp add: HasMount_def Add_def split: option.splits)

lemma Mount_after:
  assumes "fixSource sys e (Name r) h = Inr (source, e1, h1)"
  shows "Mount sys e r h
           = Inr (Mount_body sys e1 r (mountpoint sys (root e) (Name r)) source h1)"
  using assms by (simp add: Mount_def Let_def)

lemma Unmount_after:
  assumes "fixSource sys e (Name r) h = Inr (source, e1, h1)"
  shows "Unmount sys e r h = Inr (Unmount_body sys e1 (mountpoint sys (root e) (Name r)) h1)"
  using assms by (simp add: Unmount_def Let_def)

lemma physical_unmounts_append:
  "physical_unmounts dest (cs @ ds) = physical_unmounts dest cs + physical_unmounts dest ds"
  by (induction cs) (auto simp: physical_unmounts_def)

lemma physical_mounts_append:
  "physical_mounts dest (cs @ ds) = physical_mounts dest cs + physical_mounts dest ds"
  by (simp add: physical_mounts_def)

lemma Unmount_physical_calls:
  assumes "Unmount_physical sys e dest h = (resp, e', h')"
  shows "e' = e"
    and "physical_unmounts dest (calls h') = physical_unmounts dest (calls h) + 1"
    and "physical_mounts dest (calls h') = physical_mounts dest (calls h)"
  using assms
  by (auto simp: Unmount_physical_def do_run_def do_RemoveAll_def physical_unmounts_append
      physical_mounts_append physical_unmounts_def physical_mounts_def umount_cmd_def
      split: prod.splits option.splits)

lemma Mount_mountpoint:
  assumes "Mount sys e r h = Inr (resp, e', h')"
  shows "Mountpoint resp = [] \<or> Mountpoint resp = mountpoint sys (root e) (Name r)"
proof -
  obtain source e1 h1 where fx: "fixSource sys e (Name r) h = Inr (source, e1, h1)"
    using assms by (auto simp: Mount_def Let_def split: sum.splits)
  show ?thesis
    using assms
    by (auto simp: Mount_after [OF fx] Mount_body_def ok_response_def err_response_def
        split: if_splits prod.splits option.splits)
qed

text \<open>
  Claim C2. When the mountpoint of the request has a record with a count above
  zero and the source resolution returns, \<^verbatim>\<open>Mount\<close> answers with that mountpoint
  and no error, the count is one higher, and the host is the one the source
  resolution left: nothing was called but, possibly, \<^verbatim>\<open>LookupHost\<close>; no directory
  was created and nothing was mounted. The mountpoint is the one any earlier
  \<^verbatim>\<open>Mount\<close> of the request that answered with a mountpoint gave, whatever the
  registry, the cache and the host were then.
\<close>

theorem Mount_reuse:
  assumes "fixSource sys e (Name r) h = Inr (source, e1, h1)"
    and "dest = mountpoint sys (root e) (Name r)"
    and "HasMount (mountm e) dest" and "Count (mountm e) dest > 0"
  shows "Mount sys e r h
           = Inr (\<lparr>Mountpoint = dest, Err = []\<rparr>,
                  e1\<lparr>mountm := Increment (mountm e) dest\<rparr>, h1) \<and>
         Count (Increment (mountm e) dest) dest = Count (mountm e) dest + 1 \<and>
         physical_calls (calls h1) = physical_calls (calls h) \<and>
         (root e0 = root e \<and> Mount sys e0 r h0 = Inr (resp0, e0', h0') \<and>
          Mountpoint resp0 \<noteq> [] \<longrightarrow> Mountpoint resp0 = dest)"
proof -
  have "Mountpoint resp0 = dest"
    if "root e0 = root e" and "Mount sys e0 r h0 = Inr (resp0, e0', h0')"
      and "Mountpoint resp0 \<noteq> []"
    using Mount_mountpoint [OF that(2)] that(1,3) assms(2) by simp
  then show ?thesis
    using assms(2-4) fixSource_frame(1,6) [OF assms(1)]
    by (simp add: Mount_after [OF assms(1)] Mount_body_def ok_response_def Count_Increment)
qed

text \<open>
  A first \<^verbatim>\<open>Mount\<close> of \<^verbatim>\<open>"vol1"\<close> on a new driver, then a second one on the driver
  and the host the first one left.
\<close>

theorem Mount_reuse_witness:
  "Mount (fixed_sys None None None None (Inr [''10.0.0.5'']))
     (driver ''/var/lib/efs'' ''az1'' True ''us-east-1'') \<lparr>Name = ''vol1''\<rparr> idle
     = Inr (\<lparr>Mountpoint = ''/var/lib/efs/vol1'', Err = []\<rparr>,
            (driver ''/var/lib/efs'' ''az1'' True ''us-east-1'')
              \<lparr>mountm := [''/var/lib/efs/vol1'' \<mapsto> \<lparr>volumeName = ''vol1'', refCount = 1\<rparr>],
               dnscache := [''az1.vol1.efs.us-east-1.amazonaws.com'' \<mapsto> ''10.0.0.5'']\<rparr>,
            \<lparr>world = (),
             calls = [CallLookupHost ''az1.vol1.efs.us-east-1.amazonaws.com'',
                      CallCreateDest ''/var/lib/efs/vol1'',
                      CallMountVolume ''10.0.0.5:/'' ''/var/lib/efs/vol1'' 4]\<rparr>) \<and>
   Mount (fixed_sys None None None None (Inr [''10.0.0.5'']))
     ((driver ''/var/lib/efs'' ''az1'' True ''us-east-1'')
        \<lparr>mountm := [''/var/lib/efs/vol1'' \<mapsto> \<lparr>volumeName = ''vol1'', refCount = 1\<rparr>],
         dnscache := [''az1.vol1.efs.us-east-1.amazonaws.com'' \<mapsto> ''10.0.0.5'']\<rparr>)
     \<lparr>Name = ''vol1''\<rparr>
     \<lparr>world = (),
      calls = [CallLookupHost ''az1.vol1.efs.us-east-1.amazonaws.com'',
               CallCreateDest ''/var/lib/efs/vol1'',
               CallMountVolume ''10.0.0.5:/'' ''/var/lib/efs/vol1'' 4]\<rparr>
     = Inr (\<lparr>Mountpoint = ''/var/lib/efs/vol1'', Err = []\<rparr>,
            (driver ''/var/lib/efs'' ''az1'' True ''us-east-1'')
              \<lparr>mountm := [''/var/lib/efs/vol1'' \<mapsto> \<lparr>volumeName = ''vol1'', refCount = 2\<rparr>],
               dnscache := [''az1.vol1.efs.us-east-1.amazonaws.com'' \<mapsto> ''10.0.0.5'']\<rparr>,
            \<lparr>world = (),
             calls = [CallLookupHost ''az1.vol1.efs.us-east-1.amazonaws.com'',
                      CallCreateDest ''/var/lib/efs/vol1'',
                      CallMountVolume ''10.0.0.5:/'' ''/var/lib/efs/vol1'' 4]\<rparr>)"
  using Mount_reuse
    [of "fixed_sys None None None None (Inr [''10.0.0.5''])"
        "(driver ''/var/lib/efs'' ''az1'' True ''us-east-1'')
           \<lparr>mountm := [''/var/lib/efs/vol1'' \<mapsto> \<lparr>volumeName = ''vol1'', refCount = 1\<rparr>],
            dnscache := [''az1.vol1.efs.us-east-1.amazonaws.com'' \<mapsto> ''10.0.0.5'']\<rparr>"
        "\<lparr>Name = ''vol1''\<rparr>"
        "\<lparr>world = (),
          calls = [CallLookupHost ''az1.vol1.efs.us-east-1.amazonaws.com'',
                   CallCreateDest ''/var/lib/efs/vol1'',
                   CallMountVolume ''10.0.0.5:/'' ''/var/lib/efs/vol1'' 4]\<rparr>"
        "''10.0.0.5:/''"
        "(driver ''/var/lib/efs'' ''az1'' True ''us-east-1'')
           \<lparr>mountm := [''/var/lib/efs/vol1'' \<mapsto> \<lparr>volumeName = ''vol1'', refCount = 1\<rparr>],
            dnscache := [''az1.vol1.efs.us-east-1.amazonaws.com'' \<mapsto> ''10.0.0.5'']\<rparr>"
        "\<lparr>world = (),
          calls = [CallLookupHost ''az1.vol1.efs.us-east-1.amazonaws.com'',
                   CallCreateDest ''/var/lib/efs/vol1'',
                   CallMountVolume ''10.0.0.5:/'' ''/var/lib/efs/vol1'' 4]\<rparr>"
        "''/var/lib/efs/vol1''"
        "driver ''/var/lib/efs'' ''az1'' True ''us-east-1''" idle
        "\<lparr>Mountpoint = ''/var/lib/efs/vol1'', Err = []\<rparr>"
        "(driver ''/var/lib/efs'' ''az1'' True ''us-east-1'')
           \<lparr>mountm := [''/var/lib/efs/vol1'' \<mapsto> \<lparr>volumeName = ''vol1'', refCount = 1\<rparr>],
            dnscache := [''az1.vol1.efs.us-east-1.amazonaws.com'' \<mapsto> ''10.0.0.5'']\<rparr>"
        "\<lparr>world = (),
          calls = [CallLookupHost ''az1.vol1.efs.us-east-1.amazonaws.com'',
                   CallCreateDest ''/var/lib/efs/vol1'',
                   CallMountVolume ''10.0.0.5:/'' ''/var/lib/efs/vol1'' 4]\<rparr>"]
  by (simp add: driver_def fixed_sys_def idle_def fixSource_def EfsTemplateURI_def
      mountSuffix_def do_LookupHost_def do_createDest_def do_mountVolume_def Let_def
      HasMount_def Count_def Increment_def Add_def NewVolumeManager_def Mount_def
      Mount_body_def ok_response_def)

text \<open>
  Claim C3. When the mountpoint is not in use and the source resolution returns:
  if \<^verbatim>\<open>createDest\<close> fails, or if it succeeds and \<^verbatim>\<open>mountVolume\<close> fails, \<^verbatim>\<open>Mount\<close>
  answers with the message of that error in \<^verbatim>\<open>Err\<close>, and the registry is the one
  from before the call. So the mountpoint is still not in use, and the next
  \<^verbatim>\<open>Mount\<close> of the name creates and mounts again.
\<close>

theorem Mount_failure:
  assumes "fixSource sys e (Name r) h = Inr (source, e1, h1)"
    and "dest = mountpoint sys (root e) (Name r)"
    and "\<not> (HasMount (mountm e) dest \<and> Count (mountm e) dest > 0)"
  shows "(createDest sys dest (world h1) = (Some msg, w2) \<longrightarrow>
            Mount sys e r h
              = Inr (\<lparr>Mountpoint = [], Err = msg\<rparr>, e1,
                     \<lparr>world = w2, calls = calls h1 @ [CallCreateDest dest]\<rparr>)) \<and>
         (createDest sys dest (world h1) = (None, w2) \<and>
          mountVolume sys source dest 4 w2 = (Some msg, w3) \<longrightarrow>
            Mount sys e r h
              = Inr (\<lparr>Mountpoint = [], Err = msg\<rparr>, e1,
                     \<lparr>world = w3,
                      calls = calls h1 @ [CallCreateDest dest, CallMountVolume source dest 4]\<rparr>)) \<and>
         mountm e1 = mountm e \<and>
         \<not> (HasMount (mountm e1) dest \<and> Count (mountm e1) dest > 0)"
  using assms(2,3) fixSource_frame(1) [OF assms(1)]
  by (auto simp: Mount_after [OF assms(1)] Mount_body_def err_response_def do_createDest_def
      do_mountVolume_def)


theorem Mount_failure_witness:
  "\<not> HasMount (mountm (driver ''/var/lib/efs'' [] False [])) ''/var/lib/efs/server1/export'' \<and>
   Mount (fixed_sys (Some ''mkdir: permission denied'') None None None (Inl []))
     (driver ''/var/lib/efs'' [] False []) \<lparr>Name = ''server1/export''\<rparr> idle
     = Inr (\<lparr>Mountpoint = [], Err = ''mkdir: permission denied''\<rparr>,
            driver ''/var/lib/efs'' [] False [],
            \<lparr>world = (), calls = [CallCreateDest ''/var/lib/efs/server1/export'']\<rparr>) \<and>
   Mount (fixed_sys None (Some ''exit status 32'') None None (Inl []))
     (driver ''/var/lib/efs'' [] False []) \<lparr>Name = ''server1/export''\<rparr> idle
     = Inr (\<lparr>Mountpoint = [], Err = ''exit status 32''\<rparr>,
            driver ''/var/lib/efs'' [] False [],
            \<lparr>world = (),
             calls = [CallCreateDest ''/var/lib/efs/server1/export'',
                      CallMountVolume ''server1:/export'' ''/var/lib/efs/server1/export'' 4]\<rparr>)"
  using
    Mount_failure
      [of "fixed_sys (Some ''mkdir: permission denied'') None None None (Inl [])"
          "driver ''/var/lib/efs'' [] False []" "\<lparr>Name = ''server1/export''\<rparr>" idle
          "''server1:/export''" "driver ''/var/lib/efs'' [] False []" idle
          "''/var/lib/efs/server1/export''" "''mkdir: permission denied''" "()"]
    Mount_failure
      [of "fixed_sys None (Some ''exit status 32'') None None (Inl [])"
          "driver ''/var/lib/efs'' [] False []" "\<lparr>Name = ''server1/export''\<rparr>" idle
          "''server1:/export''" "driver ''/var/lib/efs'' [] False []" idle
          "''/var/lib/efs/server1/export''" "''exit status 32''" "()" "()"]
  by (simp add: driver_def fixed_sys_def idle_def fixSource_def HasMount_def
      NewVolumeManager_def)

subsection \<open>Unmount\<close>

text \<open>
  Claim C1. When the source resolution returns: if the count of the mountpoint is
  above one, \<^verbatim>\<open>Unmount\<close> answers without error, the count is one lower, and the host
  is the one the source resolution left, so that nothing was run or removed. If
  the mountpoint has a record with count one, \<^verbatim>\<open>Unmount\<close> brings the count to zero
  and calls \<^verbatim>\<open>run\<close> with the \<^verbatim>\<open>umount\<close> command of the mountpoint, once, on the
  host the source resolution left: if the command fails, its message is the
  answer's error and nothing is removed; if it succeeds, \<^verbatim>\<open>os.RemoveAll\<close> is
  called on the mountpoint and its error, if any, is the answer's error.
\<close>

theorem Unmount_shared:
  assumes "fixSource sys e (Name r) h = Inr (source, e1, h1)"
    and "dest = mountpoint sys (root e) (Name r)"
  shows "(Count (mountm e) dest > 1 \<longrightarrow>
            Unmount sys e r h
              = Inr (\<lparr>Mountpoint = [], Err = []\<rparr>,
                     e1\<lparr>mountm := Decrement (mountm e) dest\<rparr>, h1) \<and>
            Count (Decrement (mountm e) dest) dest = Count (mountm e) dest - 1 \<and>
            physical_calls (calls h1) = physical_calls (calls h)) \<and>
         (HasMount (mountm e) dest \<and> Count (mountm e) dest = 1 \<longrightarrow>
            Count (Decrement (mountm e) dest) dest = 0 \<and>
            physical_calls (calls h1) = physical_calls (calls h) \<and>
            (run sys (''umount '' @ dest) (world h1) = (Some msg, w2) \<longrightarrow>
               Unmount sys e r h
                 = Inr (\<lparr>Mountpoint = [], Err = msg\<rparr>,
                        e1\<lparr>mountm := Decrement (mountm e) dest\<rparr>,
                        \<lparr>world = w2, calls = calls h1 @ [CallRun (''umount '' @ dest)]\<rparr>)) \<and>
            (run sys (''umount '' @ dest) (world h1) = (None, w2) \<and>
             RemoveAll sys dest w2 = (Some msg, w3) \<longrightarrow>
               Unmount sys e r h
                 = Inr (\<lparr>Mountpoint = [], Err = msg\<rparr>,
                        e1\<lparr>mountm := Decrement (mountm e) dest\<rparr>,
                        \<lparr>world = w3,
                         calls = calls h1 @ [CallRun (''umount '' @ dest), CallRemoveAll dest]\<rparr>)) \<and>
            (run sys (''umount '' @ dest) (world h1) = (None, w2) \<and>
             RemoveAll sys dest w2 = (None, w3) \<longrightarrow>
               Unmount sys e r h
                 = Inr (\<lparr>Mountpoint = [], Err = []\<rparr>,
                        e1\<lparr>mountm := Decrement (mountm e) dest\<rparr>,
                        \<lparr>world = w3,
                         calls = calls h1 @ [CallRun (''umount '' @ dest), CallRemoveAll dest]\<rparr>)) \<and>
            (Unmount sys e r h = Inr (resp, e', h') \<longrightarrow>
               physical_unmounts dest (calls h') = physical_unmounts dest (calls h) + 1))"
proof -
  note frame = fixSource_frame [OF assms(1)]
  have shared: "Unmount sys e r h
              = Inr (\<lparr>Mountpoint = [], Err = []\<rparr>,
                     e1\<lparr>mountm := Decrement (mountm e) dest\<rparr>, h1)"
    if "Count (mountm e) dest > 1"
    using that Count_pos_HasMount [of "mountm e" dest] assms(2) frame(1)
    by (simp add: Unmount_after [OF assms(1)] Unmount_body_def ok_response_def)
  have lower: "Count (Decrement (mountm e) dest) dest = Count (mountm e) dest - 1"
    if "Count (mountm e) dest > 1"
    using that by (simp add: Count_Decrement)
  have zero: "Count (Decrement (mountm e) dest) dest = 0" if "Count (mountm e) dest = 1"
    using that by (simp add: Count_Decrement)
  have last: "Unmount sys e r h
                = Inr (Unmount_physical sys (e1\<lparr>mountm := Decrement (mountm e) dest\<rparr>) dest h1)"
    if "HasMount (mountm e) dest" and "Count (mountm e) dest = 1"
    using that assms(2) frame(1)
    by (simp add: Unmount_after [OF assms(1)] Unmount_body_def)
  have failed: "Unmount sys e r h
                 = Inr (\<lparr>Mountpoint = [], Err = msg\<rparr>,
                        e1\<lparr>mountm := Decrement (mountm e) dest\<rparr>,
                        \<lparr>world = w2, calls = calls h1 @ [CallRun (''umount '' @ dest)]\<rparr>)"
    if "HasMount (mountm e) dest" and "Count (mountm e) dest = 1"
      and "run sys (''umount '' @ dest) (world h1) = (Some msg, w2)"
    using that(3)
    by (simp add: last [OF that(1,2)] Unmount_physical_def do_run_def umount_cmd_def
        err_response_def)
  have kept: "Unmount sys e r h
                 = Inr (\<lparr>Mountpoint = [], Err = msg\<rparr>,
                        e1\<lparr>mountm := Decrement (mountm e) dest\<rparr>,
                        \<lparr>world = w3,
                         calls = calls h1 @ [CallRun (''umount '' @ dest), CallRemoveAll dest]\<rparr>)"
    if "HasMount (mountm e) dest" and "Count (mountm e) dest = 1"
      and "run sys (''umount '' @ dest) (world h1) = (None, w2)"
      and "RemoveAll sys dest w2 = (Some msg, w3)"
    using that(3,4)
    by (simp add: last [OF that(1,2)] Unmount_physical_def do_run_def do_RemoveAll_def
        umount_cmd_def err_response_def)
  have removed: "Unmount sys e r h
                 = Inr (\<lparr>Mountpoint = [], Err = []\<rparr>,
                        e1\<lparr>mountm := Decrement (mountm e) dest\<rparr>,
                        \<lparr>world = w3,
                         calls = calls h1 @ [CallRun (''umount '' @ dest), CallRemoveAll dest]\<rparr>)"
    if "HasMount (mountm e) dest" and "Count (mountm e) dest = 1"
      and "run sys (''umount '' @ dest) (world h1) = (None, w2)"
      and "RemoveAll sys dest w2 = (None, w3)"
    using that(3,4)
    by (simp add: last [OF that(1,2)] Unmount_physical_def do_run_def do_RemoveAll_def
        umount_cmd_def ok_response_def)
  have once: "physical_unmounts dest (calls h') = physical_unmounts dest (calls h) + 1"
    if "HasMount (mountm e) dest" and "Count (mountm e) dest = 1"
      and "Unmount sys e r h = Inr (resp, e', h')"
  proof -
    have "Unmount_physical sys (e1\<lparr>mountm := Decrement (mountm e) dest\<rparr>) dest h1
            = (resp, e', h')"
      using that(3) by (simp add: last [OF that(1,2)])
    from Unmount_physical_calls(2) [OF this] frame(8) [of dest] show ?thesis by simp
  qed
  show ?thesis
    using shared lower zero failed kept removed once frame(6) by blast
qed

theorem Unmount_shared_witness:
  "Count [''/var/lib/efs/server1/export'' \<mapsto> \<lparr>volumeName = ''server1/export'', refCount = 2\<rparr>]
     ''/var/lib/efs/server1/export'' > 1 \<and>
   Unmount (fixed_sys None None None None (Inl []))
     ((driver ''/var/lib/efs'' [] False [])
        \<lparr>mountm := [''/var/lib/efs/server1/export''
                      \<mapsto> \<lparr>volumeName = ''server1/export'', refCount = 2\<rparr>]\<rparr>)
     \<lparr>Name = ''server1/export''\<rparr> idle
     = Inr (\<lparr>Mountpoint = [], Err = []\<rparr>,
            (driver ''/var/lib/efs'' [] False [])
              \<lparr>mountm := [''/var/lib/efs/server1/export''
                            \<mapsto> \<lparr>volumeName = ''server1/export'', refCount = 1\<rparr>]\<rparr>,
            idle) \<and>
   Unmount (fixed_sys None None None None (Inl []))
     ((driver ''/var/lib/efs'' [] False [])
        \<lparr>mountm := [''/var/lib/efs/server1/export''
                      \<mapsto> \<lparr>volumeName = ''server1/export'', refCount = 1\<rparr>]\<rparr>)
     \<lparr>Name = ''server1/export''\<rparr> idle
     = Inr (\<lparr>Mountpoint = [], Err = []\<rparr>,
            (driver ''/var/lib/efs'' [] False [])
              \<lparr>mountm := [''/var/lib/efs/server1/export''
                            \<mapsto> \<lparr>volumeName = ''server1/export'', refCount = 0\<rparr>]\<rparr>,
            \<lparr>world = (),
             calls = [CallRun ''umount /var/lib/efs/server1/export'',
                      CallRemoveAll ''/var/lib/efs/server1/export'']\<rparr>) \<and>
   Unmount (fixed_sys None None (Some ''exit status 32'') None (Inl []))
     ((driver ''/var/lib/efs'' [] False [])
        \<lparr>mountm := [''/var/lib/efs/server1/export''
                      \<mapsto> \<lparr>volumeName = ''server1/export'', refCount = 1\<rparr>]\<rparr>)
     \<lparr>Name = ''server1/export''\<rparr> idle
     = Inr (\<lparr>Mountpoint = [], Err = ''exit status 32''\<rparr>,
            (driver ''/var/lib/efs'' [] False [])
              \<lparr>mountm := [''/var/lib/efs/server1/export''
                            \<mapsto> \<lparr>volumeName = ''server1/export'', refCount = 0\<rparr>]\<rparr>,
            \<lparr>world = (), calls = [CallRun ''umount /var/lib/efs/server1/export'']\<rparr>) \<and>
   physical_unmounts ''/var/lib/efs/server1/export''
     [CallRun ''umount /var/lib/efs/server1/export'',
      CallRemoveAll ''/var/lib/efs/server1/export''] = 1"
  using
    Unmount_shared
      [of "fixed_sys None None None None (Inl [])"
          "(driver ''/var/lib/efs'' [] False [])
             \<lparr>mountm := [''/var/lib/efs/server1/export''
                           \<mapsto> \<lparr>volumeName = ''server1/export'', refCount = 2\<rparr>]\<rparr>"
          "\<lparr>Name = ''server1/export''\<rparr>" idle "''server1:/export''"
          "(driver ''/var/lib/efs'' [] False [])
             \<lparr>mountm := [''/var/lib/efs/server1/export''
                           \<mapsto> \<lparr>volumeName = ''server1/export'', refCount = 2\<rparr>]\<rparr>"
          idle "''/var/lib/efs/server1/export''"]
    Unmount_shared
      [of "fixed_sys None None None None (Inl [])"
          "(driver ''/var/lib/efs'' [] False [])
             \<lparr>mountm := [''/var/lib/efs/server1/export''
                           \<mapsto> \<lparr>volumeName = ''server1/export'', refCount = 1\<rparr>]\<rparr>"
          "\<lparr>Name = ''server1/export''\<rparr>" idle "''server1:/export''"
          "(driver ''/var/lib/efs'' [] False [])
             \<lparr>mountm := [''/var/lib/efs/server1/export''
                           \<mapsto> \<lparr>volumeName = ''server1/export'', refCount = 1\<rparr>]\<rparr>"
          idle "''/var/lib/efs/server1/export''" _ "()" "()"
          "\<lparr>Mountpoint = [], Err = []\<rparr>"
          "(driver ''/var/lib/efs'' [] False [])
             \<lparr>mountm := [''/var/lib/efs/server1/export''
                           \<mapsto> \<lparr>volumeName = ''server1/export'', refCount = 0\<rparr>]\<rparr>"
          "\<lparr>world = (),
            calls = [CallRun ''umount /var/lib/efs/server1/export'',
                     CallRemoveAll ''/var/lib/efs/server1/export'']\<rparr>"]
    Unmount_shared
      [of "fixed_sys None None (Some ''exit status 32'') None (Inl [])"
          "(driver ''/var/lib/efs'' [] False [])
             \<lparr>mountm := [''/var/lib/efs/server1/export''
                           \<mapsto> \<lparr>volumeName = ''server1/export'', refCount = 1\<rparr>]\<rparr>"
          "\<lparr>Name = ''server1/export''\<rparr>" idle "''server1:/export''"
          "(driver ''/var/lib/efs'' [] False [])
             \<lparr>mountm := [''/var/lib/efs/server1/export''
                           \<mapsto> \<lparr>volumeName = ''server1/export'', refCount = 1\<rparr>]\<rparr>"
          idle "''/var/lib/efs/server1/export''" "''exit status 32''" "()"]
  by (simp add: driver_def fixed_sys_def idle_def fixSource_def HasMount_def Count_def
      Decrement_def physical_unmounts_def umount_cmd_def)

text \<open>
  Claim C9. When the mountpoint has no record and the source resolution returns,
  \<^verbatim>\<open>Unmount\<close> runs the \<^verbatim>\<open>umount\<close> command of the mountpoint; if that fails its
  message is the answer's error and nothing is removed; if it succeeds the
  mountpoint is removed with \<^verbatim>\<open>os.RemoveAll\<close>, whose error, if any, is the answer's
  error. The registry is not changed.
\<close>

theorem Unmount_unregistered:
  assumes "fixSource sys e (Name r) h = Inr (source, e1, h1)"
    and "dest = mountpoint sys (root e) (Name r)"
    and "\<not> HasMount (mountm e) dest"
  shows "(run sys (''umount '' @ dest) (world h1) = (Some msg, w2) \<longrightarrow>
            Unmount sys e r h
              = Inr (\<lparr>Mountpoint = [], Err = msg\<rparr>, e1,
                     \<lparr>world = w2, calls = calls h1 @ [CallRun (''umount '' @ dest)]\<rparr>)) \<and>
         (run sys (''umount '' @ dest) (world h1) = (None, w2) \<and>
          RemoveAll sys dest w2 = (Some msg, w3) \<longrightarrow>
            Unmount sys e r h
              = Inr (\<lparr>Mountpoint = [], Err = msg\<rparr>, e1,
                     \<lparr>world = w3,
                      calls = calls h1 @ [CallRun (''umount '' @ dest), CallRemoveAll dest]\<rparr>)) \<and>
         (run sys (''umount '' @ dest) (world h1) = (None, w2) \<and>
          RemoveAll sys dest w2 = (None, w3) \<longrightarrow>
            Unmount sys e r h
              = Inr (\<lparr>Mountpoint = [], Err = []\<rparr>, e1,
                     \<lparr>world = w3,
                      calls = calls h1 @ [CallRun (''umount '' @ dest), CallRemoveAll dest]\<rparr>)) \<and>
         mountm e1 = mountm e"
  using assms(2,3) fixSource_frame(1) [OF assms(1)]
  by (auto simp: Unmount_after [OF assms(1)] Unmount_body_def Unmount_physical_def
      err_response_def ok_response_def do_run_def do_RemoveAll_def umount_cmd_def)


theorem Unmount_unregistered_witness:
  "\<not> HasMount (mountm (driver ''/var/lib/efs'' [] False [])) ''/var/lib/efs/server1/export'' \<and>
   Unmount (fixed_sys None None (Some ''exit status 32'') None (Inl []))
     (driver ''/var/lib/efs'' [] False []) \<lparr>Name = ''server1/export''\<rparr> idle
     = Inr (\<lparr>Mountpoint = [], Err = ''exit status 32''\<rparr>,
            driver ''/var/lib/efs'' [] False [],
            \<lparr>world = (), calls = [CallRun ''umount /var/lib/efs/server1/export'']\<rparr>) \<and>
   Unmount (fixed_sys None None None (Some ''device or resource busy'') (Inl []))
     (driver ''/var/lib/efs'' [] False []) \<lparr>Name = ''server1/export''\<rparr> idle
     = Inr (\<lparr>Mountpoint = [], Err = ''device or resource busy''\<rparr>,
            driver ''/var/lib/efs'' [] False [],
            \<lparr>world = (),
             calls = [CallRun ''umount /var/lib/efs/server1/export'',
                      CallRemoveAll ''/var/lib/efs/server1/export'']\<rparr>) \<and>
   Unmount (fixed_sys None None None None (Inl []))
     (driver ''/var/lib/efs'' [] False []) \<lparr>Name = ''server1/export''\<rparr> idle
     = Inr (\<lparr>Mountpoint = [], Err = []\<rparr>,
            driver ''/var/lib/efs'' [] False [],
            \<lparr>world = (),
             calls = [CallRun ''umount /var/lib/efs/server1/export'',
                      CallRemoveAll ''/var/lib/efs/server1/export'']\<rparr>)"
  using
    Unmount_unregistered
      [of "fixed_sys None None (Some ''exit status 32'') None (Inl [])"
          "driver ''/var/lib/efs'' [] False []" "\<lparr>Name = ''server1/export''\<rparr>" idle
          "''server1:/export''" "driver ''/var/lib/efs'' [] False []" idle
          "''/var/lib/efs/server1/export''" "''exit status 32''" "()"]
    Unmount_unregistered
      [of "fixed_sys None None None (Some ''device or resource busy'') (Inl [])"
          "driver ''/var/lib/efs'' [] False []" "\<lparr>Name = ''server1/export''\<rparr>" idle
          "''server1:/export''" "driver ''/var/lib/efs'' [] False []" idle
          "''/var/lib/efs/server1/export''" "''device or resource busy''" "()" "()"]
    Unmount_unregistered
      [of "fixed_sys None None None None (Inl [])"
          "driver ''/var/lib/efs'' [] False []" "\<lparr>Name = ''server1/export''\<rparr>" idle
          "''server1:/export''" "driver ''/var/lib/efs'' [] False []" idle
          "''/var/lib/efs/server1/export''" _ "()" "()"]
  by (simp add: driver_def fixed_sys_def idle_def fixSource_def HasMount_def
      NewVolumeManager_def)

subsection \<open>Sequences of calls\<close>

lemma fixSource_returns:
  assumes "\<forall>u w. fst (LookupHost sys u w) \<noteq> Inr []"
  shows "\<exists>source e1 h1. fixSource sys e name h = Inr (source, e1, h1)"
proof (cases "resolve e")
  case True
  have "LookupHost sys u (world h) \<noteq> (Inr [], w)" for u w
    using assms by (metis fst_conv)
  then show ?thesis
    by (simp add: fixSource_resolve [OF True refl]
        split: option.splits prod.splits sum.splits list.splits)
next
  case False
  obtain v0 vs where "Split name CHR ''/'' = v0 # vs"
    using Split_not_Nil [of name "CHR ''/''"] by (cases "Split name CHR ''/''") auto
  with False show ?thesis by (simp add: fixSource_def)
qed

lemma Mount_step:
  assumes "\<forall>u w. fst (LookupHost sys u w) \<noteq> Inr []"
    and "\<forall>d w. fst (createDest sys d w) = None"
    and "\<forall>s d v w. fst (mountVolume sys s d v w) = None"
    and "dest = mountpoint sys (root e) (Name r)"
  shows "\<exists>resp e' h'. Mount sys e r h = Inr (resp, e', h') \<and> root e' = root e \<and>
           HasMount (mountm e') dest \<and>
           Count (mountm e') dest
             = (if 0 < Count (mountm e) dest then Count (mountm e) dest + 1 else 1) \<and>
           physical_mounts dest (calls h')
             = physical_mounts dest (calls h) + (if 0 < Count (mountm e) dest then 0 else 1) \<and>
           physical_unmounts dest (calls h') = physical_unmounts dest (calls h)"
proof -
  obtain source e1 h1 where fx: "fixSource sys e (Name r) h = Inr (source, e1, h1)"
    using fixSource_returns [OF assms(1)] by blast
  note frame = fixSource_frame [OF fx]
  show ?thesis
  proof (cases "0 < Count (mountm e) dest")
    case True
    then have "HasMount (mountm e) dest" by (rule Count_pos_HasMount)
    with True show ?thesis
      using assms(4) frame(1,2) frame(7,8) [of dest]
      by (simp add: Mount_after [OF fx] Mount_body_def Count_Increment HasMount_Increment)
  next
    case False
    obtain w2 where cd: "createDest sys dest (world h1) = (None, w2)"
      using assms(2) by (metis fst_conv surj_pair)
    obtain w3 where mv: "mountVolume sys source dest 4 w2 = (None, w3)"
      using assms(3) by (metis fst_conv surj_pair)
    from False show ?thesis
      using assms(4) frame(1,2) frame(7,8) [of dest] cd mv
      by (simp add: Mount_after [OF fx] Mount_body_def do_createDest_def do_mountVolume_def
          Count_Add HasMount_Add physical_mounts_def physical_unmounts_def)
  qed
qed

lemma Unmount_step:
  assumes "\<forall>u w. fst (LookupHost sys u w) \<noteq> Inr []"
    and "dest = mountpoint sys (root e) (Name r)"
    and "0 < Count (mountm e) dest"
  shows "\<exists>resp e' h'. Unmount sys e r h = Inr (resp, e', h') \<and> root e' = root e \<and>
           HasMount (mountm e') dest \<and>
           Count (mountm e') dest = Count (mountm e) dest - 1 \<and>
           physical_mounts dest (calls h') = physical_mounts dest (calls h) \<and>
           physical_unmounts dest (calls h')
             = physical_unmounts dest (calls h) + (if 1 < Count (mountm e) dest then 0 else 1)"
proof -
  obtain source e1 h1 where fx: "fixSource sys e (Name r) h = Inr (source, e1, h1)"
    using fixSource_returns [OF assms(1)] by blast
  note frame = fixSource_frame [OF fx]
  have has: "HasMount (mountm e) dest"
    using assms(3) by (rule Count_pos_HasMount)
  show ?thesis
  proof (cases "1 < Count (mountm e) dest")
    case True
    with has show ?thesis
      using assms(2) frame(1,2) frame(7,8) [of dest]
      by (simp add: Unmount_after [OF fx] Unmount_body_def Count_Decrement HasMount_Decrement)
  next
    case False
    obtain resp e2 h2 where
      ph: "Unmount_physical sys (e1\<lparr>mountm := Decrement (mountm e) dest\<rparr>) dest h1 = (resp, e2, h2)"
      by (cases "Unmount_physical sys (e1\<lparr>mountm := Decrement (mountm e) dest\<rparr>) dest h1") auto
    have un: "Unmount sys e r h = Inr (resp, e2, h2)"
      using has False assms(2) frame(1) ph
      by (simp add: Unmount_after [OF fx] Unmount_body_def)
    have e2: "e2 = e1\<lparr>mountm := Decrement (mountm e) dest\<rparr>"
      using Unmount_physical_calls(1) [OF ph] .
    show ?thesis
      using False assms(3) has un e2 frame(2) frame(7,8) [of dest]
        Unmount_physical_calls(2,3) [OF ph]
      by (simp add: Count_Decrement HasMount_Decrement)
  qed
qed

lemma serial_append:
  "serial sys r (xs @ ys) e h =
     (case serial sys r xs e h of
        Inl p \<Rightarrow> Inl p
      | Inr (rs, e1, h1) \<Rightarrow>
          (case serial sys r ys e1 h1 of
             Inl p \<Rightarrow> Inl p
           | Inr (rs', e2, h2) \<Rightarrow> Inr (rs @ rs', e2, h2)))"
  by (induction xs arbitrary: e h) (auto split: sum.splits prod.splits)

lemma Mounts_again:
  assumes "\<forall>u w. fst (LookupHost sys u w) \<noteq> Inr []"
    and "\<forall>d w. fst (createDest sys d w) = None"
    and "\<forall>s d v w. fst (mountVolume sys s d v w) = None"
  shows "dest = mountpoint sys (root e) (Name r) \<Longrightarrow> 0 < Count (mountm e) dest \<Longrightarrow>
         \<exists>resps e' h'. serial sys r (replicate k OpMount) e h = Inr (resps, e', h') \<and>
           root e' = root e \<and>
           Count (mountm e') dest = Count (mountm e) dest + int k \<and>
           physical_mounts dest (calls h') = physical_mounts dest (calls h) \<and>
           physical_unmounts dest (calls h') = physical_unmounts dest (calls h)"
proof (induction k arbitrary: e h)
  case 0
  show ?case by simp
next
  case (Suc k)
  obtain resp e1 h1 where
    m: "Mount sys e r h = Inr (resp, e1, h1)" and rt: "root e1 = root e"
    and cnt: "Count (mountm e1) dest = Count (mountm e) dest + 1"
    and pm: "physical_mounts dest (calls h1) = physical_mounts dest (calls h)"
    and pu: "physical_unmounts dest (calls h1) = physical_unmounts dest (calls h)"
    using Mount_step [OF assms Suc.prems(1), of h] Suc.prems(2) by auto
  have "dest = mountpoint sys (root e1) (Name r)" and "0 < Count (mountm e1) dest"
    using Suc.prems rt cnt by simp_all
  from Suc.IH [OF this, of h1] obtain resps e' h' where
    "serial sys r (replicate k OpMount) e1 h1 = Inr (resps, e', h')" "root e' = root e1"
    "Count (mountm e') dest = Count (mountm e1) dest + int k"
    "physical_mounts dest (calls h') = physical_mounts dest (calls h1)"
    "physical_unmounts dest (calls h') = physical_unmounts dest (calls h1)"
    by blast
  with m rt cnt pm pu show ?case
    by (simp add: call_op_def)
qed

lemma Unmounts_shared:
  assumes "\<forall>u w. fst (LookupHost sys u w) \<noteq> Inr []"
  shows "dest = mountpoint sys (root e) (Name r) \<Longrightarrow> int k < Count (mountm e) dest \<Longrightarrow>
         \<exists>resps e' h'. serial sys r (replicate k OpUnmount) e h = Inr (resps, e', h') \<and>
           root e' = root e \<and>
           Count (mountm e') dest = Count (mountm e) dest - int k \<and>
           physical_mounts dest (calls h') = physical_mounts dest (calls h) \<and>
           physical_unmounts dest (calls h') = physical_unmounts dest (calls h)"
proof (induction k arbitrary: e h)
  case 0
  show ?case by simp
next
  case (Suc k)
  have pos: "0 < Count (mountm e) dest" and shared: "1 < Count (mountm e) dest"
    using Suc.prems(2) by simp_all
  obtain resp e1 h1 where
    m: "Unmount sys e r h = Inr (resp, e1, h1)" and rt: "root e1 = root e"
    and cnt: "Count (mountm e1) dest = Count (mountm e) dest - 1"
    and pm: "physical_mounts dest (calls h1) = physical_mounts dest (calls h)"
    and pu: "physical_unmounts dest (calls h1) = physical_unmounts dest (calls h)"
    using Unmount_step [OF assms Suc.prems(1) pos, of h] shared by auto
  have "dest = mountpoint sys (root e1) (Name r)" and "int k < Count (mountm e1) dest"
    using Suc.prems rt cnt by simp_all
  from Suc.IH [OF this, of h1] obtain resps e' h' where
    "serial sys r (replicate k OpUnmount) e1 h1 = Inr (resps, e', h')" "root e' = root e1"
    "Count (mountm e') dest = Count (mountm e1) dest - int k"
    "physical_mounts dest (calls h') = physical_mounts dest (calls h1)"
    "physical_unmounts dest (calls h') = physical_unmounts dest (calls h1)"
    by blast
  with m rt cnt pm pu show ?case
    by (simp add: call_op_def)
qed


text \<open>
  Calls made one after the other. On a host on which every \<^verbatim>\<open>createDest\<close> and
  every \<^verbatim>\<open>mountVolume\<close> succeeds and no successful \<^verbatim>\<open>LookupHost\<close> is empty, from
  a registry in which the mountpoint is not in use, \<open>N\<close> calls of \<^verbatim>\<open>Mount\<close>
  followed by \<open>N\<close> calls of \<^verbatim>\<open>Unmount\<close> all return, make one \<^verbatim>\<open>mountVolume\<close> call
  on the mountpoint, run its \<^verbatim>\<open>umount\<close> command once and leave a record of count
  zero.
\<close>

lemma serial_mounts_then_unmounts:
  assumes "\<forall>u w. fst (LookupHost sys u w) \<noteq> Inr []"
    and "\<forall>d w. fst (createDest sys d w) = None"
    and "\<forall>s d v w. fst (mountVolume sys s d v w) = None"
    and "dest = mountpoint sys (root e) (Name r)"
    and "Count (mountm e) dest \<le> 0"
    and "0 < N"
  shows "\<exists>resps e' h'.
           serial sys r (replicate N OpMount @ replicate N OpUnmount) e h = Inr (resps, e', h') \<and>
           physical_mounts dest (calls h') = physical_mounts dest (calls h) + 1 \<and>
           physical_unmounts dest (calls h') = physical_unmounts dest (calls h) + 1 \<and>
           HasMount (mountm e') dest \<and> Count (mountm e') dest = 0"
proof -
  obtain n where N: "N = Suc n"
    using assms(6) by (cases N) auto
  obtain resp1 e1 h1 where
    m1: "Mount sys e r h = Inr (resp1, e1, h1)" and rt1: "root e1 = root e"
    and c1: "Count (mountm e1) dest = 1"
    and pm1: "physical_mounts dest (calls h1) = physical_mounts dest (calls h) + 1"
    and pu1: "physical_unmounts dest (calls h1) = physical_unmounts dest (calls h)"
    using Mount_step [OF assms(1-4), of h] assms(5) by auto
  have d1: "dest = mountpoint sys (root e1) (Name r)"
    using assms(4) rt1 by simp
  obtain rs2 e2 h2 where
    m2: "serial sys r (replicate n OpMount) e1 h1 = Inr (rs2, e2, h2)"
    and rt2: "root e2 = root e1"
    and c2: "Count (mountm e2) dest = 1 + int n"
    and pm2: "physical_mounts dest (calls h2) = physical_mounts dest (calls h1)"
    and pu2: "physical_unmounts dest (calls h2) = physical_unmounts dest (calls h1)"
    using Mounts_again [OF assms(1-3) d1, of n h1] c1 by auto
  have d2: "dest = mountpoint sys (root e2) (Name r)"
    using d1 rt2 by simp
  obtain rs3 e3 h3 where
    u3: "serial sys r (replicate n OpUnmount) e2 h2 = Inr (rs3, e3, h3)"
    and rt3: "root e3 = root e2"
    and c3: "Count (mountm e3) dest = 1"
    and pm3: "physical_mounts dest (calls h3) = physical_mounts dest (calls h2)"
    and pu3: "physical_unmounts dest (calls h3) = physical_unmounts dest (calls h2)"
    using Unmounts_shared [OF assms(1) d2, of n h2] c2 by auto
  have d3: "dest = mountpoint sys (root e3) (Name r)"
    using d2 rt3 by simp
  obtain resp4 e4 h4 where
    u4: "Unmount sys e3 r h3 = Inr (resp4, e4, h4)"
    and has4: "HasMount (mountm e4) dest"
    and c4: "Count (mountm e4) dest = 0"
    and pm4: "physical_mounts dest (calls h4) = physical_mounts dest (calls h3)"
    and pu4: "physical_unmounts dest (calls h4) = physical_unmounts dest (calls h3) + 1"
    using Unmount_step [OF assms(1) d3, of h3] c3 by auto
  have ops: "replicate N OpMount @ replicate N OpUnmount
               = ([OpMount] @ replicate n OpMount) @ (replicate n OpUnmount @ [OpUnmount])"
    using N replicate_append_same [of n OpUnmount] by simp
  have "serial sys r (replicate N OpMount @ replicate N OpUnmount) e h
          = Inr ((resp1 # rs2) @ rs3 @ [resp4], e4, h4)"
    unfolding ops using m1 m2 u3 u4
    by (simp add: serial_append call_op_def)
  then show ?thesis
    using pm1 pm2 pm3 pm4 pu1 pu2 pu3 pu4 has4 c4 by simp
qed


subsection \<open>Interleavings under the lock\<close>

lemma complete_stop: "left p = 0 \<Longrightarrow> complete sys r p e h = (p, e, h)"
  by (subst complete.simps) simp

lemma complete_go:
  "0 < left p \<Longrightarrow>
   complete sys r p e h = (case body sys r p e h of (p1, e1, h1) \<Rightarrow> complete sys r p1 e1 h1)"
  by (subst complete.simps) simp

text \<open>
  A goroutine that runs a body alone, from \<^verbatim>\<open>Lock\<close> to \<^verbatim>\<open>Unlock\<close>, does what the
  function of the call does.
\<close>

lemma complete_Mount:
  assumes "fixSource sys e (Name r) h = Inr (source, e1, h1)"
    and "Mount_body sys e1 r (mountpoint sys (root e) (Name r)) source h1 = (resp, e2, h2)"
  shows "complete sys r MountLocked e h = (Leaving (Inr resp), e2, h2)"
  using assms fixSource_frame(2) [OF assms(1)]
  by (auto simp: complete_go complete_stop Mount_body_def split: if_splits prod.splits
      option.splits)

lemma complete_Unmount:
  assumes "fixSource sys e (Name r) h = Inr (source, e1, h1)"
    and "Unmount_body sys e1 (mountpoint sys (root e) (Name r)) h1 = (resp, e2, h2)"
  shows "complete sys r UnmountLocked e h = (Leaving (Inr resp), e2, h2)"
  using assms fixSource_frame(2) [OF assms(1)]
  by (auto simp: complete_go complete_stop Unmount_body_def Unmount_physical_def
      split: if_splits prod.splits option.splits)

lemma complete_call_op:
  assumes "call_op sys e r x h = Inr (resp, e2, h2)"
  shows "complete sys r (first_pc x) e h = (Leaving (Inr resp), e2, h2)"
proof (cases x)
  case OpMount
  with assms obtain source e1 h1 where
    fx: "fixSource sys e (Name r) h = Inr (source, e1, h1)"
    by (auto simp: call_op_def Mount_def Let_def split: sum.splits)
  have "Mount_body sys e1 r (mountpoint sys (root e) (Name r)) source h1 = (resp, e2, h2)"
    using assms OpMount by (simp add: call_op_def Mount_after [OF fx])
  from complete_Mount [OF fx this] OpMount show ?thesis
    by (simp add: first_pc_def)
next
  case OpUnmount
  with assms obtain source e1 h1 where
    fx: "fixSource sys e (Name r) h = Inr (source, e1, h1)"
    by (auto simp: call_op_def Unmount_def Let_def split: sum.splits)
  have "Unmount_body sys e1 (mountpoint sys (root e) (Name r)) h1 = (resp, e2, h2)"
    using assms OpUnmount by (simp add: call_op_def Unmount_after [OF fx])
  from complete_Unmount [OF fx this] OpUnmount show ?thesis
    by (simp add: first_pc_def)
qed


lemma inside_cases: "\<not> outside p \<Longrightarrow> (\<exists>res. p = Leaving res) \<or> 0 < left p"
  by (cases p) auto

lemma body_inside:
  assumes "0 < left p" and "body sys r p e h = (p1, e1, h1)"
  shows "\<not> outside p1" and "left p1 < left p"
  using assms
  by (cases p; auto split: sum.splits prod.splits option.splits if_splits)+

lemma list_all_update:
  "list_all P xs \<Longrightarrow> P x \<Longrightarrow> list_all P (xs[i := x])"
  by (induction xs arbitrary: i) (auto split: nat.splits)

lemma step_unheld:
  assumes "unheld c" and "step sys r c t = Some c1"
  shows "\<exists>x. t < length (goroutines c) \<and> goroutines c ! t = Start x \<and>
             c1 = c\<lparr>locked := True, goroutines := (goroutines c)[t := first_pc x]\<rparr>"
proof -
  have t: "t < length (goroutines c)"
    using assms(2) by (simp add: step_def split: if_splits)
  then have "outside (goroutines c ! t)"
    using assms(1) by (simp add: unheld_def list_all_length)
  then show ?thesis
    using assms t
    by (cases "goroutines c ! t") (auto simp: step_def unheld_def first_pc_def)
qed

lemma held_after_Lock:
  assumes "unheld c" and "t < length (goroutines c)"
  shows "held (c\<lparr>locked := True, goroutines := (goroutines c)[t := first_pc x]\<rparr>) t"
  using assms
  by (cases x) (auto simp: held_def unheld_def first_pc_def list_all_update)

lemma step_held_other:
  assumes "held c t" and "t' \<noteq> t"
  shows "step sys r c t' = None"
proof (cases "t' < length (goroutines c)")
  case True
  then have "outside (goroutines c ! t')"
    using assms by (auto simp: held_def list_all_length nth_list_update)
  then show ?thesis
    using assms(1) True by (cases "goroutines c ! t'") (auto simp: step_def held_def)
next
  case False
  then show ?thesis by (simp add: step_def)
qed

lemma step_held_Leaving:
  assumes "held c t" and "goroutines c ! t = Leaving res"
  shows "step sys r c t
           = Some (c\<lparr>locked := False, goroutines := (goroutines c)[t := Returned res]\<rparr>)"
    and "unheld (c\<lparr>locked := False, goroutines := (goroutines c)[t := Returned res]\<rparr>)"
proof -
  show "step sys r c t
           = Some (c\<lparr>locked := False, goroutines := (goroutines c)[t := Returned res]\<rparr>)"
    using assms by (simp add: step_def held_def)
  have "list_all outside (((goroutines c)[t := Start OpMount])[t := Returned res])"
    using assms(1) by (intro list_all_update [of outside "(goroutines c)[t := Start OpMount]"])
      (simp_all add: held_def)
  then show "unheld (c\<lparr>locked := False, goroutines := (goroutines c)[t := Returned res]\<rparr>)"
    by (simp add: unheld_def)
qed

lemma step_held_body:
  assumes "held c t" and "0 < left (goroutines c ! t)"
    and "body sys r (goroutines c ! t) (drv c) (hst c) = (p1, e1, h1)"
  shows "step sys r c t
           = Some (c\<lparr>goroutines := (goroutines c)[t := p1], drv := e1, hst := h1\<rparr>)"
    and "held (c\<lparr>goroutines := (goroutines c)[t := p1], drv := e1, hst := h1\<rparr>) t"
proof -
  show "step sys r c t
           = Some (c\<lparr>goroutines := (goroutines c)[t := p1], drv := e1, hst := h1\<rparr>)"
    using assms by (cases "goroutines c ! t") (auto simp: step_def held_def)
  show "held (c\<lparr>goroutines := (goroutines c)[t := p1], drv := e1, hst := h1\<rparr>) t"
    using assms(1) body_inside(1) [OF assms(2,3)] by (simp add: held_def)
qed

lemma finished_not_held: "held c t \<Longrightarrow> \<not> finished c"
proof
  assume h: "held c t" and f: "finished c"
  then have "returned (goroutines c ! t)"
    by (simp add: finished_def held_def list_all_length)
  then have "outside (goroutines c ! t)"
    by (cases "goroutines c ! t") auto
  with h show False by (simp add: held_def)
qed

text \<open>
  While a goroutine holds the mutex, an interleaving that ends with every
  goroutine returned can only go on with the steps of that goroutine, up to its
  \<^verbatim>\<open>Unlock\<close>: it passes through the configuration in which the goroutine has
  returned with the result of running alone.
\<close>

lemma critical_section:
  assumes "held c t"
    and "complete sys r (goroutines c ! t) (drv c) (hst c) = (Leaving res, e2, h2)"
    and "run_schedule sys r ts c = Some c'" and "finished c'"
  shows "\<exists>ts'. run_schedule sys r ts'
                  (c\<lparr>locked := False, goroutines := (goroutines c)[t := Returned res],
                     drv := e2, hst := h2\<rparr>) = Some c'"
  using assms
proof (induction "left (goroutines c ! t)" arbitrary: c ts rule: less_induct)
  case less
  from less.prems(1,3,4) obtain t' rest c1 where
    ts: "ts = t' # rest" and st: "step sys r c t' = Some c1"
    and rest: "run_schedule sys r rest c1 = Some c'"
    using finished_not_held [of c t]
    by (cases ts) (auto split: option.splits)
  have t': "t' = t"
    using step_held_other [OF less.prems(1), of t' sys r] st by (cases "t' = t") auto
  have "\<not> outside (goroutines c ! t)"
    using less.prems(1) by (simp add: held_def)
  then consider res0 where "goroutines c ! t = Leaving res0" | "0 < left (goroutines c ! t)"
    using inside_cases [of "goroutines c ! t"] by auto
  then show ?case
  proof cases
    case 1
    then have "complete sys r (goroutines c ! t) (drv c) (hst c) = (Leaving res0, drv c, hst c)"
      by (simp add: complete_stop)
    with less.prems(2) have eq: "res0 = res" "e2 = drv c" "h2 = hst c" by simp_all
    have "c1 = c\<lparr>locked := False, goroutines := (goroutines c)[t := Returned res]\<rparr>"
      using step_held_Leaving(1) [OF less.prems(1) 1, of sys r] st t' eq by simp
    with rest eq show ?thesis by auto
  next
    case 2
    obtain p1 e1 h1 where b: "body sys r (goroutines c ! t) (drv c) (hst c) = (p1, e1, h1)"
      by (cases "body sys r (goroutines c ! t) (drv c) (hst c)") auto
    let ?c1 = "c\<lparr>goroutines := (goroutines c)[t := p1], drv := e1, hst := h1\<rparr>"
    have c1: "c1 = ?c1"
      using step_held_body(1) [OF less.prems(1) 2 b] st t' by simp
    have held1: "held ?c1 t"
      using step_held_body(2) [OF less.prems(1) 2 b] .
    have tl: "t < length (goroutines c)"
      using less.prems(1) by (simp add: held_def)
    have lt: "left (goroutines ?c1 ! t) < left (goroutines c ! t)"
      using body_inside(2) [OF 2 b] tl by simp
    have comp: "complete sys r (goroutines ?c1 ! t) (drv ?c1) (hst ?c1) = (Leaving res, e2, h2)"
      using less.prems(2) b tl by (simp add: complete_go [OF 2])
    from less.hyps [OF lt held1 comp] rest c1 less.prems(4)
    obtain ts' where
      "run_schedule sys r ts'
         (?c1\<lparr>locked := False, goroutines := (goroutines ?c1)[t := Returned res],
               drv := e2, hst := h2\<rparr>) = Some c'"
      by blast
    then show ?thesis by auto
  qed
qed


lemma call_op_returns:
  assumes "\<forall>u w. fst (LookupHost sys u w) \<noteq> Inr []"
  shows "\<exists>resp e2 h2. call_op sys e r x h = Inr (resp, e2, h2)"
proof -
  obtain source e1 h1 where fx: "fixSource sys e (Name r) h = Inr (source, e1, h1)"
    using fixSource_returns [OF assms] by blast
  show ?thesis
    by (cases x) (auto simp: call_op_def Mount_after [OF fx] Unmount_after [OF fx]
        intro: prod_cases3)
qed

lemma count_list_update:
  "t < length xs \<Longrightarrow> xs ! t = a \<Longrightarrow> b \<noteq> a \<Longrightarrow>
   Suc (count_list (xs[t := b]) a) = count_list xs a"
  by (induction xs arbitrary: t) (auto split: nat.splits)

lemma step_finished: "finished c \<Longrightarrow> step sys r c t = None"
proof (cases "t < length (goroutines c)")
  case True
  assume "finished c"
  with True have "returned (goroutines c ! t)"
    by (simp add: finished_def list_all_length)
  with True show ?thesis
    by (cases "goroutines c ! t") (auto simp: step_def)
next
  case False
  then show ?thesis by (simp add: step_def)
qed

text \<open>
  Serialisation. From a configuration with the mutex unlocked in which the
  goroutines that have not returned all wait to make the same call, every
  interleaving that ends with all of them returned leaves the driver and the
  host that as many calls, made one after the other, leave.
\<close>

lemma serialised:
  assumes "\<forall>u w. fst (LookupHost sys u w) \<noteq> Inr []"
  shows "\<not> locked c \<Longrightarrow> \<forall>p \<in> set (goroutines c). p = Start x \<or> returned p \<Longrightarrow>
         count_list (goroutines c) (Start x) = n \<Longrightarrow>
         run_schedule sys r ts c = Some c' \<Longrightarrow> finished c' \<Longrightarrow>
         \<exists>resps. serial sys r (replicate n x) (drv c) (hst c) = Inr (resps, drv c', hst c')"
proof (induction n arbitrary: c ts)
  case 0
  have "p \<noteq> Start x" if "p \<in> set (goroutines c)" for p
    using that "0.prems"(3) by (auto simp: count_list_0_iff)
  then have "finished c"
    using "0.prems"(2) by (auto simp: finished_def list_all_iff)
  then have "ts = []"
    using "0.prems"(4) step_finished [of c sys r] by (cases ts) auto
  with "0.prems"(4) show ?case by simp
next
  case (Suc n)
  have all_out: "list_all outside (goroutines c)"
    using Suc.prems(2) unfolding list_all_iff
  proof (intro ballI)
    fix p assume "p \<in> set (goroutines c)"
    with Suc.prems(2) have "p = Start x \<or> returned p" by blast
    then show "outside p" by (cases p) auto
  qed
  then have un: "unheld c"
    using Suc.prems(1) by (simp add: unheld_def)
  have "Start x \<in> set (goroutines c)"
    using Suc.prems(3) by (metis count_list_0_iff nat.distinct(1))
  then have "\<not> finished c"
    by (auto simp: finished_def list_all_iff intro!: bexI [of _ "Start x"])
  with Suc.prems(4,5) obtain t rest c1 where
    ts: "ts = t # rest" and st: "step sys r c t = Some c1"
    and rest: "run_schedule sys r rest c1 = Some c'"
    by (cases ts) (auto split: option.splits)
  from step_unheld [OF un st] obtain y where
    t: "t < length (goroutines c)" and at: "goroutines c ! t = Start y"
    and c1: "c1 = c\<lparr>locked := True, goroutines := (goroutines c)[t := first_pc y]\<rparr>"
    by blast
  have "Start y \<in> set (goroutines c)"
    using t at by (metis nth_mem)
  with Suc.prems(2) have y: "y = x" by auto
  have held1: "held c1 t"
    using held_after_Lock [OF un t] c1 by simp
  obtain resp e2 h2 where call: "call_op sys (drv c) r x (hst c) = Inr (resp, e2, h2)"
    using call_op_returns [OF assms] by blast
  have comp: "complete sys r (goroutines c1 ! t) (drv c1) (hst c1) = (Leaving (Inr resp), e2, h2)"
    using complete_call_op [OF call] c1 t y by simp
  let ?c2 = "c\<lparr>locked := False, goroutines := (goroutines c)[t := Returned (Inr resp)],
                drv := e2, hst := h2\<rparr>"
  from critical_section [OF held1 comp rest Suc.prems(5)] obtain ts' where
    run2: "run_schedule sys r ts' ?c2 = Some c'"
    using c1 by auto
  have pool: "\<forall>p \<in> set (goroutines ?c2). p = Start x \<or> returned p"
    using Suc.prems(2) set_update_subset_insert [of "goroutines c" t "Returned (Inr resp)"]
    by auto
  have cnt: "count_list (goroutines ?c2) (Start x) = n"
    using count_list_update [OF t, of "Start x" "Returned (Inr resp)"] at y Suc.prems(3)
    by simp
  from Suc.IH [OF _ pool cnt run2 Suc.prems(5)] obtain resps where
    "serial sys r (replicate n x) e2 h2 = Inr (resps, drv c', hst c')"
    by auto
  with call show ?case by simp
qed


text \<open>
  The serialisation rests on the lock. In a configuration with two goroutines
  inside the body of \<^verbatim>\<open>Mount\<close> at once, which no interleaving of calls reaches, both
  pass the test of the registry before either adds a record, and both mount.
\<close>

lemma two_goroutines_in_body_mount_twice:
  "run_schedule (fixed_sys None None None None (Inl [])) \<lparr>Name = ''server1/export''\<rparr>
     [0, 1, 0, 1, 0, 1]
     \<lparr>locked = True,
      goroutines = [MountCheck ''server1:/export'', MountCheck ''server1:/export''],
      drv = driver ''/var/lib/efs'' [] False [], hst = idle\<rparr>
     = Some \<lparr>locked = True, goroutines = [MountAdd, MountAdd],
             drv = driver ''/var/lib/efs'' [] False [],
             hst = \<lparr>world = (),
                    calls = [CallCreateDest ''/var/lib/efs/server1/export'',
                             CallCreateDest ''/var/lib/efs/server1/export'',
                             CallMountVolume ''server1:/export'' ''/var/lib/efs/server1/export'' 4,
                             CallMountVolume ''server1:/export'' ''/var/lib/efs/server1/export'' 4]\<rparr>\<rparr>"
  by (simp add: step_def driver_def fixed_sys_def idle_def do_createDest_def
      do_mountVolume_def HasMount_def Count_def NewVolumeManager_def)

subsection \<open>No interleaving gets stuck or goes on for ever\<close>

lemma run_schedule_append:
  "run_schedule sys r (ts @ us) c =
     (case run_schedule sys r ts c of None \<Rightarrow> None | Some c1 \<Rightarrow> run_schedule sys r us c1)"
  by (induction ts arbitrary: c) (auto split: option.splits)

lemma step_Start:
  assumes "\<not> locked c" and "t < length (goroutines c)" and "goroutines c ! t = Start x"
  shows "step sys r c t
           = Some (c\<lparr>locked := True, goroutines := (goroutines c)[t := first_pc x]\<rparr>)"
  using assms by (simp add: step_def first_pc_def)

lemma held_completes:
  assumes "held c t"
  shows "\<exists>ts res e2 h2.
           run_schedule sys r ts c
             = Some (c\<lparr>locked := False, goroutines := (goroutines c)[t := Returned res],
                       drv := e2, hst := h2\<rparr>)"
  using assms
proof (induction "left (goroutines c ! t)" arbitrary: c rule: less_induct)
  case less
  have "\<not> outside (goroutines c ! t)"
    using less.prems by (simp add: held_def)
  then consider res0 where "goroutines c ! t = Leaving res0" | "0 < left (goroutines c ! t)"
    using inside_cases [of "goroutines c ! t"] by auto
  then show ?case
  proof cases
    case 1
    have "run_schedule sys r [t] c
            = Some (c\<lparr>locked := False, goroutines := (goroutines c)[t := Returned res0],
                      drv := drv c, hst := hst c\<rparr>)"
      using step_held_Leaving(1) [OF less.prems 1, of sys r] by simp
    then show ?thesis by blast
  next
    case 2
    obtain p1 e1 h1 where b: "body sys r (goroutines c ! t) (drv c) (hst c) = (p1, e1, h1)"
      by (cases "body sys r (goroutines c ! t) (drv c) (hst c)") auto
    let ?c1 = "c\<lparr>goroutines := (goroutines c)[t := p1], drv := e1, hst := h1\<rparr>"
    have st: "step sys r c t = Some ?c1" and held1: "held ?c1 t"
      using step_held_body [OF less.prems 2 b] by simp_all
    have tl: "t < length (goroutines c)"
      using less.prems by (simp add: held_def)
    have lt: "left (goroutines ?c1 ! t) < left (goroutines c ! t)"
      using body_inside(2) [OF 2 b] tl by simp
    from less.hyps [OF lt held1] obtain ts res e2 h2 where
      "run_schedule sys r ts ?c1
         = Some (?c1\<lparr>locked := False, goroutines := (goroutines ?c1)[t := Returned res],
                     drv := e2, hst := h2\<rparr>)"
      by blast
    then have "run_schedule sys r (t # ts) c
         = Some (c\<lparr>locked := False, goroutines := (goroutines c)[t := Returned res],
                   drv := e2, hst := h2\<rparr>)"
      using st by simp
    then show ?thesis by blast
  qed
qed

lemma filter_update_length:
  "t < length xs \<Longrightarrow> Q (xs ! t) \<Longrightarrow> \<not> Q b \<Longrightarrow>
   Suc (length (filter Q (xs[t := b]))) = length (filter Q xs)"
  by (induction xs arbitrary: t) (auto split: nat.splits)

lemma unheld_completes:
  "unheld c \<Longrightarrow> length (filter (\<lambda>p. \<not> returned p) (goroutines c)) = k \<Longrightarrow>
   \<exists>ts c'. run_schedule sys r ts c = Some c' \<and> finished c'"
proof (induction k arbitrary: c)
  case 0
  then have "finished c"
    by (auto simp: finished_def list_all_iff filter_empty_conv)
  then have "run_schedule sys r [] c = Some c \<and> finished c" by simp
  then show ?case by blast
next
  case (Suc k)
  from Suc.prems(2) obtain p where "p \<in> set (goroutines c)" and nr: "\<not> returned p"
    by (metis (mono_tags, lifting) filter_False length_0_conv nat.distinct(1))
  then obtain t where t: "t < length (goroutines c)" and at: "goroutines c ! t = p"
    by (auto simp: in_set_conv_nth)
  have "outside p"
    using Suc.prems(1) t at by (auto simp: unheld_def list_all_length)
  with nr obtain x where p: "p = Start x"
    by (cases p) auto
  let ?c1 = "c\<lparr>locked := True, goroutines := (goroutines c)[t := first_pc x]\<rparr>"
  have st: "step sys r c t = Some ?c1"
    using step_Start [of c t x sys r] Suc.prems(1) t at p by (simp add: unheld_def)
  have "held ?c1 t"
    using held_after_Lock [OF Suc.prems(1) t] .
  from held_completes [OF this, of sys r] obtain ts1 res e2 h2 where
    run1: "run_schedule sys r ts1 ?c1
             = Some (?c1\<lparr>locked := False, goroutines := (goroutines ?c1)[t := Returned res],
                         drv := e2, hst := h2\<rparr>)"
    by blast
  let ?c2 = "c\<lparr>locked := False, goroutines := (goroutines c)[t := Returned res],
                drv := e2, hst := h2\<rparr>"
  have run1': "run_schedule sys r ts1 ?c1 = Some ?c2"
    using run1 by simp
  have un2: "unheld ?c2"
    using Suc.prems(1) by (simp add: unheld_def list_all_update)
  have "Suc (length (filter (\<lambda>p. \<not> returned p) ((goroutines c)[t := Returned res])))
          = length (filter (\<lambda>p. \<not> returned p) (goroutines c))"
    using filter_update_length [OF t, of "\<lambda>p. \<not> returned p" "Returned res"] at nr by simp
  with Suc.prems(2) have "length (filter (\<lambda>p. \<not> returned p) (goroutines ?c2)) = k"
    by simp
  from Suc.IH [OF un2 this] obtain ts2 c' where
    "run_schedule sys r ts2 ?c2 = Some c'" and "finished c'"
    by blast
  with st run1' have "run_schedule sys r (t # ts1 @ ts2) c = Some c' \<and> finished c'"
    by (simp add: run_schedule_append)
  then show ?case by blast
qed

lemma step_keeps_lock_discipline:
  assumes "step sys r c t = Some c1" and "unheld c \<or> (\<exists>t0. held c t0)"
  shows "unheld c1 \<or> (\<exists>t0. held c1 t0)"
  using assms(2)
proof
  assume un: "unheld c"
  from step_unheld [OF un assms(1)] obtain x where
    "t < length (goroutines c)"
    "c1 = c\<lparr>locked := True, goroutines := (goroutines c)[t := first_pc x]\<rparr>"
    by blast
  with held_after_Lock [OF un, of t x] show ?thesis by auto
next
  assume "\<exists>t0. held c t0"
  then obtain t0 where h: "held c t0" by blast
  have t: "t = t0"
    using step_held_other [OF h, of t sys r] assms(1) by (cases "t = t0") auto
  have "\<not> outside (goroutines c ! t0)"
    using h by (simp add: held_def)
  then consider res0 where "goroutines c ! t0 = Leaving res0" | "0 < left (goroutines c ! t0)"
    using inside_cases [of "goroutines c ! t0"] by auto
  then show ?thesis
  proof cases
    case 1
    from step_held_Leaving(1) [OF h 1, of sys r] step_held_Leaving(2) [OF h 1] assms(1) t
    show ?thesis by auto
  next
    case 2
    obtain p1 e1 h1 where b: "body sys r (goroutines c ! t0) (drv c) (hst c) = (p1, e1, h1)"
      by (cases "body sys r (goroutines c ! t0) (drv c) (hst c)") auto
    from step_held_body [OF h 2 b] assms(1) t show ?thesis by auto
  qed
qed

lemma run_keeps_lock_discipline:
  "run_schedule sys r ts c = Some c1 \<Longrightarrow> unheld c \<or> (\<exists>t0. held c t0) \<Longrightarrow>
   unheld c1 \<or> (\<exists>t0. held c1 t0)"
proof (induction ts arbitrary: c)
  case Nil
  then show ?case by simp
next
  case (Cons t ts)
  from Cons.prems(1) obtain c0 where
    st: "step sys r c t = Some c0" and rest: "run_schedule sys r ts c0 = Some c1"
    by (auto split: option.splits)
  from Cons.IH [OF rest step_keeps_lock_discipline [OF st Cons.prems(2)]] show ?case .
qed

text \<open>
  In every configuration an interleaving of calls reaches, a goroutine about to
  unlock finds the mutex locked: the fatal error of \<^verbatim>\<open>Unlock\<close> does not occur.
\<close>

lemma Unlock_finds_locked:
  assumes "run_schedule sys r ts (spawn xs e h) = Some c"
    and "t < length (goroutines c)" and "goroutines c ! t = Leaving res"
  shows "locked c"
proof -
  have "unheld (spawn xs e h :: 'a config)"
    by (simp add: unheld_def spawn_def list_all_iff)
  from run_keeps_lock_discipline [OF assms(1)] this
  have "unheld c \<or> (\<exists>t0. held c t0)" by blast
  then show ?thesis
  proof
    assume "unheld c"
    then have "outside (goroutines c ! t)"
      using assms(2) by (simp add: unheld_def list_all_length)
    with assms(3) show ?thesis by simp
  next
    assume "\<exists>t0. held c t0"
    then show ?thesis by (auto simp: held_def)
  qed
qed

text \<open>
  Every interleaving of the calls of a pool, however far it has got, can go on
  until every call has returned: no goroutine waits for ever.
\<close>

lemma no_deadlock:
  assumes "run_schedule sys r ts (spawn xs e h) = Some c"
  shows "\<exists>ts' c'. run_schedule sys r (ts @ ts') (spawn xs e h) = Some c' \<and> finished c'"
proof -
  have "unheld (spawn xs e h :: 'a config)"
    by (simp add: unheld_def spawn_def list_all_iff)
  from run_keeps_lock_discipline [OF assms] this
  have "unheld c \<or> (\<exists>t0. held c t0)" by blast
  then have "\<exists>ts' c'. run_schedule sys r ts' c = Some c' \<and> finished c'"
  proof
    assume "unheld c"
    then show ?thesis using unheld_completes [of c _ sys r] by blast
  next
    assume "\<exists>t0. held c t0"
    then obtain t0 where h: "held c t0" by blast
    from held_completes [OF h, of sys r] obtain ts1 res e2 h2 where
      run1: "run_schedule sys r ts1 c
               = Some (c\<lparr>locked := False, goroutines := (goroutines c)[t0 := Returned res],
                         drv := e2, hst := h2\<rparr>)"
      by blast
    have l: "list_all outside (((goroutines c)[t0 := Start OpMount])[t0 := Returned res])"
      using h by (intro list_all_update [of outside "(goroutines c)[t0 := Start OpMount]"])
        (simp_all add: held_def)
    have "unheld (c\<lparr>locked := False, goroutines := (goroutines c)[t0 := Returned res],
                    drv := e2, hst := h2\<rparr>)"
      using l by (simp add: unheld_def)
    from unheld_completes [OF this refl] obtain ts2 c' where
      "run_schedule sys r ts2
         (c\<lparr>locked := False, goroutines := (goroutines c)[t0 := Returned res],
             drv := e2, hst := h2\<rparr>) = Some c'" and "finished c'"
      by blast
    with run1 have "run_schedule sys r (ts1 @ ts2) c = Some c' \<and> finished c'"
      by (simp add: run_schedule_append)
    then show ?thesis by blast
  qed
  then obtain ts' c' where "run_schedule sys r ts' c = Some c'" and "finished c'"
    by blast
  with assms have "run_schedule sys r (ts @ ts') (spawn xs e h) = Some c' \<and> finished c'"
    by (simp add: run_schedule_append)
  then show ?thesis by blast
qed

lemma sum_list_update_less:
  "t < length xs \<Longrightarrow> f b < f (xs ! t) \<Longrightarrow>
   sum_list (map f (xs[t := b])) < (sum_list (map f xs) :: nat)"
  by (induction xs arbitrary: t) (auto split: nat.splits)

lemma todo_inside: "\<not> outside p \<Longrightarrow> todo p = left p + 1"
  by (cases p) auto

lemma step_todo:
  assumes "step sys r c t = Some c1"
  shows "sum_list (map todo (goroutines c1)) < sum_list (map todo (goroutines c))"
proof -
  have t: "t < length (goroutines c)"
    using assms by (simp add: step_def split: if_splits)
  have "\<exists>p1. goroutines c1 = (goroutines c)[t := p1] \<and> todo p1 < todo (goroutines c ! t)"
  proof (cases "outside (goroutines c ! t) \<or> (\<exists>res. goroutines c ! t = Leaving res)")
    case True
    then show ?thesis
      using assms t
      by (cases "goroutines c ! t")
        (auto simp: step_def split: if_splits op.splits)
  next
    case False
    then have l: "0 < left (goroutines c ! t)"
      using inside_cases [of "goroutines c ! t"] by auto
    obtain p1 e1 h1 where b: "body sys r (goroutines c ! t) (drv c) (hst c) = (p1, e1, h1)"
      by (cases "body sys r (goroutines c ! t) (drv c) (hst c)") auto
    have "c1 = c\<lparr>goroutines := (goroutines c)[t := p1], drv := e1, hst := h1\<rparr>"
      using assms t l b by (cases "goroutines c ! t") (auto simp: step_def)
    moreover have "todo p1 < todo (goroutines c ! t)"
      using body_inside [OF l b] False by (simp add: todo_inside)
    ultimately show ?thesis by auto
  qed
  then show ?thesis
    using sum_list_update_less [OF t, of todo] by auto
qed

text \<open>An interleaving of the calls of a pool has at most seven steps for each call.\<close>

lemma run_schedule_length:
  "run_schedule sys r ts c = Some c1 \<Longrightarrow>
   length ts + sum_list (map todo (goroutines c1)) \<le> sum_list (map todo (goroutines c))"
proof (induction ts arbitrary: c)
  case Nil
  then show ?case by simp
next
  case (Cons t ts)
  from Cons.prems obtain c0 where
    st: "step sys r c t = Some c0" and rest: "run_schedule sys r ts c0 = Some c1"
    by (auto split: option.splits)
  from Cons.IH [OF rest] step_todo [OF st] show ?case by simp
qed

lemma spawn_length:
  assumes "run_schedule sys r ts (spawn xs e h) = Some c"
  shows "length ts \<le> 7 * length xs"
proof -
  have "sum_list (map todo (goroutines (spawn xs e h :: 'a config))) = 7 * length xs"
    by (induction xs) (simp_all add: spawn_def)
  with run_schedule_length [OF assms] show ?thesis by simp
qed

lemma count_list_replicate: "count_list (replicate n a) a = n"
  by (induction n) simp_all

lemma serialised_spawn:
  assumes "\<forall>u w. fst (LookupHost sys u w) \<noteq> Inr []"
    and "run_schedule sys r ts (spawn (replicate n x) e h) = Some c" and "finished c"
  shows "\<exists>resps. serial sys r (replicate n x) e h = Inr (resps, drv c, hst c)"
proof -
  let ?c0 = "spawn (replicate n x) e h :: 'a config"
  have "\<not> locked ?c0" and "\<forall>p \<in> set (goroutines ?c0). p = Start x \<or> returned p"
    and "count_list (goroutines ?c0) (Start x) = n"
    by (auto simp: spawn_def count_list_replicate)
  from serialised [OF assms(1) this assms(2,3)] show ?thesis
    by (simp add: spawn_def)
qed

text \<open>
  Claim C8, as amended. Take a host on which every \<^verbatim>\<open>createDest\<close> and every
  \<^verbatim>\<open>mountVolume\<close> succeeds and no successful \<^verbatim>\<open>LookupHost\<close> is empty, a driver whose
  registry has no record for the mountpoint of the request, and \<open>N\<close> above zero.
  Let \<open>N\<close> goroutines call \<^verbatim>\<open>Mount\<close> for the request and, when all of them have
  returned, let \<open>N\<close> goroutines call \<^verbatim>\<open>Unmount\<close> for it. Then for every
  interleaving of the first \<open>N\<close> that ends with all of them returned, and every
  such interleaving of the second \<open>N\<close>, exactly one \<^verbatim>\<open>mountVolume\<close> call was made
  on the mountpoint, its \<^verbatim>\<open>umount\<close> command was run exactly once, and the registry
  is left with a record of count zero. Every interleaving, however far it has
  got, can be carried on until all calls have returned, and none has more than
  seven steps for each call.
\<close>

theorem concurrent_mounts_then_unmounts:
  assumes "\<forall>u w. fst (LookupHost sys u w) \<noteq> Inr []"
    and "\<forall>d w. fst (createDest sys d w) = None"
    and "\<forall>s d v w. fst (mountVolume sys s d v w) = None"
    and "dest = mountpoint sys (root e) (Name r)"
    and "\<not> HasMount (mountm e) dest"
    and "0 < N"
  shows "(run_schedule sys r ts1 (spawn (replicate N OpMount) e h) = Some c1 \<and> finished c1 \<and>
          run_schedule sys r ts2 (spawn (replicate N OpUnmount) (drv c1) (hst c1)) = Some c2 \<and>
          finished c2 \<longrightarrow>
            physical_mounts dest (calls (hst c2)) = physical_mounts dest (calls h) + 1 \<and>
            physical_unmounts dest (calls (hst c2)) = physical_unmounts dest (calls h) + 1 \<and>
            HasMount (mountm (drv c2)) dest \<and> Count (mountm (drv c2)) dest = 0) \<and>
         (run_schedule sys r us (spawn (replicate N OpMount) e h) = Some d1 \<longrightarrow>
            length us \<le> 7 * N \<and>
            (\<exists>us' d1'. run_schedule sys r (us @ us') (spawn (replicate N OpMount) e h) = Some d1' \<and>
                       finished d1')) \<and>
         (run_schedule sys r vs (spawn (replicate N OpUnmount) e0 h0) = Some d2 \<longrightarrow>
            length vs \<le> 7 * N \<and>
            (\<exists>vs' d2'. run_schedule sys r (vs @ vs') (spawn (replicate N OpUnmount) e0 h0) = Some d2' \<and>
                       finished d2'))"
proof -
  have main: "physical_mounts dest (calls (hst c2)) = physical_mounts dest (calls h) + 1 \<and>
              physical_unmounts dest (calls (hst c2)) = physical_unmounts dest (calls h) + 1 \<and>
              HasMount (mountm (drv c2)) dest \<and> Count (mountm (drv c2)) dest = 0"
    if r1: "run_schedule sys r ts1 (spawn (replicate N OpMount) e h) = Some c1"
      and f1: "finished c1"
      and r2: "run_schedule sys r ts2 (spawn (replicate N OpUnmount) (drv c1) (hst c1)) = Some c2"
      and f2: "finished c2"
  proof -
    obtain rs1 where s1: "serial sys r (replicate N OpMount) e h = Inr (rs1, drv c1, hst c1)"
      using serialised_spawn [OF assms(1) r1 f1] by blast
    obtain rs2 where
      s2: "serial sys r (replicate N OpUnmount) (drv c1) (hst c1) = Inr (rs2, drv c2, hst c2)"
      using serialised_spawn [OF assms(1) r2 f2] by blast
    have both: "serial sys r (replicate N OpMount @ replicate N OpUnmount) e h
                  = Inr (rs1 @ rs2, drv c2, hst c2)"
      using s1 s2 by (simp add: serial_append)
    have "Count (mountm e) dest \<le> 0"
      using assms(5) by (simp add: Count_def HasMount_def split: option.splits)
    from serial_mounts_then_unmounts [OF assms(1-4) this assms(6), of h] both
    show ?thesis by auto
  qed
  have p1: "length us \<le> 7 * N \<and>
            (\<exists>us' d1'. run_schedule sys r (us @ us') (spawn (replicate N OpMount) e h) = Some d1' \<and>
                       finished d1')"
    if "run_schedule sys r us (spawn (replicate N OpMount) e h) = Some d1"
    using spawn_length [OF that] no_deadlock [OF that] by simp
  have p2: "length vs \<le> 7 * N \<and>
            (\<exists>vs' d2'. run_schedule sys r (vs @ vs') (spawn (replicate N OpUnmount) e0 h0) = Some d2' \<and>
                       finished d2')"
    if "run_schedule sys r vs (spawn (replicate N OpUnmount) e0 h0) = Some d2"
    using spawn_length [OF that] no_deadlock [OF that] by simp
  show ?thesis
    using main p1 p2 by blast
qed

theorem concurrent_mounts_then_unmounts_witness:
  "run_schedule (fixed_sys None None None None (Inr [''10.0.0.5''])) \<lparr>Name = ''vol1''\<rparr>
     [1, 1, 1, 1, 1, 1, 1, 0, 0, 0, 0]
     (spawn (replicate 2 OpMount) (driver ''/var/lib/efs'' ''az1'' True ''us-east-1'') idle)
     = Some \<lparr>locked = False,
             goroutines = [Returned (Inr \<lparr>Mountpoint = ''/var/lib/efs/vol1'', Err = []\<rparr>),
                           Returned (Inr \<lparr>Mountpoint = ''/var/lib/efs/vol1'', Err = []\<rparr>)],
             drv = (driver ''/var/lib/efs'' ''az1'' True ''us-east-1'')
               \<lparr>mountm := [''/var/lib/efs/vol1'' \<mapsto> \<lparr>volumeName = ''vol1'', refCount = 2\<rparr>],
                dnscache := [''az1.vol1.efs.us-east-1.amazonaws.com'' \<mapsto> ''10.0.0.5'']\<rparr>,
             hst = \<lparr>world = (),
                    calls = [CallLookupHost ''az1.vol1.efs.us-east-1.amazonaws.com'',
                             CallCreateDest ''/var/lib/efs/vol1'',
                             CallMountVolume ''10.0.0.5:/'' ''/var/lib/efs/vol1'' 4]\<rparr>\<rparr> \<and>
   run_schedule (fixed_sys None None None None (Inr [''10.0.0.5''])) \<lparr>Name = ''vol1''\<rparr>
     [0, 0, 0, 0, 1, 1, 1, 1, 1, 1]
     (spawn (replicate 2 OpUnmount)
        ((driver ''/var/lib/efs'' ''az1'' True ''us-east-1'')
           \<lparr>mountm := [''/var/lib/efs/vol1'' \<mapsto> \<lparr>volumeName = ''vol1'', refCount = 2\<rparr>],
            dnscache := [''az1.vol1.efs.us-east-1.amazonaws.com'' \<mapsto> ''10.0.0.5'']\<rparr>)
        \<lparr>world = (),
         calls = [CallLookupHost ''az1.vol1.efs.us-east-1.amazonaws.com'',
                  CallCreateDest ''/var/lib/efs/vol1'',
                  CallMountVolume ''10.0.0.5:/'' ''/var/lib/efs/vol1'' 4]\<rparr>)
     = Some \<lparr>locked = False,
             goroutines = [Returned (Inr \<lparr>Mountpoint = [], Err = []\<rparr>),
                           Returned (Inr \<lparr>Mountpoint = [], Err = []\<rparr>)],
             drv = (driver ''/var/lib/efs'' ''az1'' True ''us-east-1'')
               \<lparr>mountm := [''/var/lib/efs/vol1'' \<mapsto> \<lparr>volumeName = ''vol1'', refCount = 0\<rparr>],
                dnscache := [''az1.vol1.efs.us-east-1.amazonaws.com'' \<mapsto> ''10.0.0.5'']\<rparr>,
             hst = \<lparr>world = (),
                    calls = [CallLookupHost ''az1.vol1.efs.us-east-1.amazonaws.com'',
                             CallCreateDest ''/var/lib/efs/vol1'',
                             CallMountVolume ''10.0.0.5:/'' ''/var/lib/efs/vol1'' 4,
                             CallRun ''umount /var/lib/efs/vol1'',
                             CallRemoveAll ''/var/lib/efs/vol1'']\<rparr>\<rparr> \<and>
   physical_mounts ''/var/lib/efs/vol1''
     [CallLookupHost ''az1.vol1.efs.us-east-1.amazonaws.com'',
      CallCreateDest ''/var/lib/efs/vol1'',
      CallMountVolume ''10.0.0.5:/'' ''/var/lib/efs/vol1'' 4,
      CallRun ''umount /var/lib/efs/vol1'',
      CallRemoveAll ''/var/lib/efs/vol1''] = 1 \<and>
   physical_unmounts ''/var/lib/efs/vol1''
     [CallLookupHost ''az1.vol1.efs.us-east-1.amazonaws.com'',
      CallCreateDest ''/var/lib/efs/vol1'',
      CallMountVolume ''10.0.0.5:/'' ''/var/lib/efs/vol1'' 4,
      CallRun ''umount /var/lib/efs/vol1'',
      CallRemoveAll ''/var/lib/efs/vol1''] = 1 \<and>
   run_schedule (fixed_sys None None None None (Inr [''10.0.0.5''])) \<lparr>Name = ''vol1''\<rparr>
     [1, 0]
     (spawn (replicate 2 OpMount) (driver ''/var/lib/efs'' ''az1'' True ''us-east-1'') idle)
     = None"
  using concurrent_mounts_then_unmounts
    [of "fixed_sys None None None None (Inr [''10.0.0.5''])" "''/var/lib/efs/vol1''"
        "driver ''/var/lib/efs'' ''az1'' True ''us-east-1''" "\<lparr>Name = ''vol1''\<rparr>" 2
        "[1, 1, 1, 1, 1, 1, 1, 0, 0, 0, 0]" idle
        "\<lparr>locked = False,
          goroutines = [Returned (Inr \<lparr>Mountpoint = ''/var/lib/efs/vol1'', Err = []\<rparr>),
                        Returned (Inr \<lparr>Mountpoint = ''/var/lib/efs/vol1'', Err = []\<rparr>)],
          drv = (driver ''/var/lib/efs'' ''az1'' True ''us-east-1'')
            \<lparr>mountm := [''/var/lib/efs/vol1'' \<mapsto> \<lparr>volumeName = ''vol1'', refCount = 2\<rparr>],
             dnscache := [''az1.vol1.efs.us-east-1.amazonaws.com'' \<mapsto> ''10.0.0.5'']\<rparr>,
          hst = \<lparr>world = (),
                 calls = [CallLookupHost ''az1.vol1.efs.us-east-1.amazonaws.com'',
                          CallCreateDest ''/var/lib/efs/vol1'',
                          CallMountVolume ''10.0.0.5:/'' ''/var/lib/efs/vol1'' 4]\<rparr>\<rparr>"
        "[0, 0, 0, 0, 1, 1, 1, 1, 1, 1]"
        "\<lparr>locked = False,
          goroutines = [Returned (Inr \<lparr>Mountpoint = [], Err = []\<rparr>),
                        Returned (Inr \<lparr>Mountpoint = [], Err = []\<rparr>)],
          drv = (driver ''/var/lib/efs'' ''az1'' True ''us-east-1'')
            \<lparr>mountm := [''/var/lib/efs/vol1'' \<mapsto> \<lparr>volumeName = ''vol1'', refCount = 0\<rparr>],
             dnscache := [''az1.vol1.efs.us-east-1.amazonaws.com'' \<mapsto> ''10.0.0.5'']\<rparr>,
          hst = \<lparr>world = (),
                 calls = [CallLookupHost ''az1.vol1.efs.us-east-1.amazonaws.com'',
                          CallCreateDest ''/var/lib/efs/vol1'',
                          CallMountVolume ''10.0.0.5:/'' ''/var/lib/efs/vol1'' 4,
                          CallRun ''umount /var/lib/efs/vol1'',
                          CallRemoveAll ''/var/lib/efs/vol1'']\<rparr>\<rparr>"
        "[]" "spawn (replicate 2 OpMount) (driver ''/var/lib/efs'' ''az1'' True ''us-east-1'') idle"
        "[]" "driver ''/var/lib/efs'' ''az1'' True ''us-east-1''" idle
        "spawn (replicate 2 OpUnmount) (driver ''/var/lib/efs'' ''az1'' True ''us-east-1'') idle"]
  by (simp add: numeral_2_eq_2 step_def spawn_def finished_def driver_def fixed_sys_def
      idle_def fixSource_def EfsTemplateURI_def mountSuffix_def do_LookupHost_def
      do_createDest_def do_mountVolume_def do_run_def do_RemoveAll_def HasMount_def
      Count_def Add_def Increment_def Decrement_def NewVolumeManager_def ok_response_def
      err_response_def umount_cmd_def physical_mounts_def physical_unmounts_def Let_def)

text \<open>
  On a host where \<^verbatim>\<open>mountVolume\<close> and \<^verbatim>\<open>umount\<close> fail, two calls of \<^verbatim>\<open>Mount\<close>,
  interleaved as the lock allows, followed by two calls of \<^verbatim>\<open>Unmount\<close>, make two
  \<^verbatim>\<open>mountVolume\<close> calls and run \<^verbatim>\<open>umount\<close> twice: a failed \<^verbatim>\<open>Mount\<close> leaves no
  record, so the next one mounts again, and \<^verbatim>\<open>Unmount\<close> without a record unmounts.
  With no call at all nothing is mounted.
\<close>

theorem concurrent_failed_mounts_repeat:
  "run_schedule (fixed_sys None (Some ''exit status 32'') (Some ''exit status 32'') None (Inl []))
     \<lparr>Name = ''server1/export''\<rparr> [0, 0, 0, 0, 0, 0, 1, 1, 1, 1, 1, 1]
     (spawn (replicate 2 OpMount) (driver ''/var/lib/efs'' [] False []) idle)
     = Some \<lparr>locked = False,
             goroutines = [Returned (Inr \<lparr>Mountpoint = [], Err = ''exit status 32''\<rparr>),
                           Returned (Inr \<lparr>Mountpoint = [], Err = ''exit status 32''\<rparr>)],
             drv = driver ''/var/lib/efs'' [] False [],
             hst = \<lparr>world = (),
                    calls = [CallCreateDest ''/var/lib/efs/server1/export'',
                             CallMountVolume ''server1:/export'' ''/var/lib/efs/server1/export'' 4,
                             CallCreateDest ''/var/lib/efs/server1/export'',
                             CallMountVolume ''server1:/export'' ''/var/lib/efs/server1/export'' 4]\<rparr>\<rparr> \<and>
   run_schedule (fixed_sys None (Some ''exit status 32'') (Some ''exit status 32'') None (Inl []))
     \<lparr>Name = ''server1/export''\<rparr> [0, 0, 0, 0, 0, 1, 1, 1, 1, 1]
     (spawn (replicate 2 OpUnmount) (driver ''/var/lib/efs'' [] False [])
        \<lparr>world = (),
         calls = [CallCreateDest ''/var/lib/efs/server1/export'',
                  CallMountVolume ''server1:/export'' ''/var/lib/efs/server1/export'' 4,
                  CallCreateDest ''/var/lib/efs/server1/export'',
                  CallMountVolume ''server1:/export'' ''/var/lib/efs/server1/export'' 4]\<rparr>)
     = Some \<lparr>locked = False,
             goroutines = [Returned (Inr \<lparr>Mountpoint = [], Err = ''exit status 32''\<rparr>),
                           Returned (Inr \<lparr>Mountpoint = [], Err = ''exit status 32''\<rparr>)],
             drv = driver ''/var/lib/efs'' [] False [],
             hst = \<lparr>world = (),
                    calls = [CallCreateDest ''/var/lib/efs/server1/export'',
                             CallMountVolume ''server1:/export'' ''/var/lib/efs/server1/export'' 4,
                             CallCreateDest ''/var/lib/efs/server1/export'',
                             CallMountVolume ''server1:/export'' ''/var/lib/efs/server1/export'' 4,
                             CallRun ''umount /var/lib/efs/server1/export'',
                             CallRun ''umount /var/lib/efs/server1/export'']\<rparr>\<rparr> \<and>
   physical_mounts ''/var/lib/efs/server1/export''
     [CallCreateDest ''/var/lib/efs/server1/export'',
      CallMountVolume ''server1:/export'' ''/var/lib/efs/server1/export'' 4,
      CallCreateDest ''/var/lib/efs/server1/export'',
      CallMountVolume ''server1:/export'' ''/var/lib/efs/server1/export'' 4,
      CallRun ''umount /var/lib/efs/server1/export'',
      CallRun ''umount /var/lib/efs/server1/export''] = 2 \<and>
   physical_unmounts ''/var/lib/efs/server1/export''
     [CallCreateDest ''/var/lib/efs/server1/export'',
      CallMountVolume ''server1:/export'' ''/var/lib/efs/server1/export'' 4,
      CallCreateDest ''/var/lib/efs/server1/export'',
      CallMountVolume ''server1:/export'' ''/var/lib/efs/server1/export'' 4,
      CallRun ''umount /var/lib/efs/server1/export'',
      CallRun ''umount /var/lib/efs/server1/export''] = 2 \<and>
   run_schedule (fixed_sys None None None None (Inl [])) \<lparr>Name = ''server1/export''\<rparr> []
     (spawn (replicate 0 OpMount) (driver ''/var/lib/efs'' [] False []) idle)
     = Some \<lparr>locked = False, goroutines = [], drv = driver ''/var/lib/efs'' [] False [],
             hst = idle\<rparr> \<and>
   finished \<lparr>locked = False, goroutines = [], drv = driver ''/var/lib/efs'' [] False [],
             hst = idle\<rparr> \<and>
   physical_mounts ''/var/lib/efs/server1/export'' (calls idle) = 0"
  by (simp add: numeral_2_eq_2 step_def spawn_def finished_def driver_def fixed_sys_def
      idle_def fixSource_def do_createDest_def do_mountVolume_def do_run_def
      do_RemoveAll_def HasMount_def Count_def NewVolumeManager_def ok_response_def
      err_response_def umount_cmd_def physical_mounts_def physical_unmounts_def Let_def)

end
